theory Spec2Isabelle
  imports Complex_Main
begin

section \<open>The compliance scanner \<^verbatim>\<open>find-insecure-gh-repos.py\<close>\<close>

text \<open>
  The script lists the repositories of an organization with the \<^verbatim>\<open>gh\<close> command line
  client and, for each of them, probes the branches \<^verbatim>\<open>main\<close> and \<^verbatim>\<open>master\<close>, the branch
  protection and the required-signatures setting. Everything it learns about the outside
  world comes from \<^verbatim>\<open>run_command\<close>; everything it tells comes from writes to the
  standard output and from its exit status.

  The embedding keeps that shape. The outside world is a function from command lines to
  what \<^verbatim>\<open>subprocess.run\<close> does with them; the standard output and the list of commands
  handed to \<^verbatim>\<open>subprocess.run\<close> are threaded through every function as an explicit state; a
  Python exception is a value, and every function that can raise returns a sum.
  Strings are \<^typ>\<open>string\<close>, a character standing for one code point below 256; the
  standard output is taken to accept every such text.
\<close>

subsection \<open>Python values and library functions\<close>

text \<open>What \<^verbatim>\<open>json.loads\<close> can return: \<^verbatim>\<open>None\<close>, a bool, an int, a float (a finite one by its
  value, the three others \<^verbatim>\<open>NaN\<close>, \<^verbatim>\<open>Infinity\<close>, \<^verbatim>\<open>-Infinity\<close> together), a str, a list, or a
  dict in insertion order.\<close>

datatype json =
    JNull
  | JBool bool
  | JInt int
  | JFloat rat
  | JNonFinite
  | JString string
  | JArray "json list"
  | JObject "(string \<times> json) list"

text \<open>The exceptions that the script can meet, by their class; \<^verbatim>\<open>OtherError\<close> stands for any
  other subclass of \<^verbatim>\<open>Exception\<close>, by its name. JSONDecodeError is the class that line 27
  catches; a ValueError of another class (as \<^verbatim>\<open>json.loads\<close> raises on an integer literal of
  more than 4300 digits) is not caught there.\<close>

datatype pyexn =
    JSONDecodeError
  | ValueError
  | RecursionError
  | UnicodeDecodeError
  | OSError
  | TypeError
  | KeyError
  | AttributeError
  | IndexError
  | OtherError string

text \<open>The two library functions whose code is not the script's own: \<^verbatim>\<open>json.loads\<close> on a
  str (the exception it raises, or the value), and the text that an f-string puts for a
  value that is not a str.\<close>

record pylib =
  json_loads :: "string \<Rightarrow> pyexn + json"
  format_other :: "json \<Rightarrow> string"

text \<open>\<^verbatim>\<open>f"{v}"\<close>: a str is put as it is.\<close>

definition py_format :: "pylib \<Rightarrow> json \<Rightarrow> string" where
  "py_format lib v = (case v of JString s \<Rightarrow> s | _ \<Rightarrow> format_other lib v)"

text \<open>\<^verbatim>\<open>f"{n}"\<close> for an int that is not negative.\<close>

function str_nat :: "nat \<Rightarrow> string" where
  "str_nat n = (if n < 10 then [char_of (48 + n)] else str_nat (n div 10) @ [char_of (48 + n mod 10)])"
  by pat_completeness auto
termination
  by (relation "measure id") auto

declare str_nat.simps [simp del]

text \<open>Truth value of a Python object, for the values above.\<close>

fun truthy :: "json \<Rightarrow> bool" where
  "truthy JNull = False"
| "truthy (JBool b) = b"
| "truthy (JInt i) = (i \<noteq> 0)"
| "truthy (JFloat q) = (q \<noteq> 0)"
| "truthy JNonFinite = True"
| "truthy (JString s) = (s \<noteq> [])"
| "truthy (JArray xs) = (xs \<noteq> [])"
| "truthy (JObject kvs) = (kvs \<noteq> [])"

text \<open>Truth value of what \<^verbatim>\<open>run_command\<close> returns: \<^verbatim>\<open>None\<close> and the empty str are false.\<close>

fun str_truthy :: "string option \<Rightarrow> bool" where
  "str_truthy None = False"
| "str_truthy (Some s) = (s \<noteq> [])"

text \<open>\<^verbatim>\<open>str.isspace\<close> on one character, and \<^verbatim>\<open>str.strip()\<close>.\<close>

definition py_isspace :: "char \<Rightarrow> bool" where
  "py_isspace c = (c \<in> set [CHR 0x09, CHR 0x0A, CHR 0x0B, CHR 0x0C, CHR 0x0D, CHR 0x1C,
      CHR 0x1D, CHR 0x1E, CHR 0x1F, CHR 0x20, CHR 0x85, CHR 0xA0])"

definition strip :: "string \<Rightarrow> string" where
  "strip s = rev (dropWhile py_isspace (rev (dropWhile py_isspace s)))"

text \<open>The translation of line ends that reading in text mode does (\<^verbatim>\<open>text=True\<close>): a
  carriage return followed by a line feed, and a carriage return alone, become a line
  feed.\<close>

fun universal_newlines :: "string \<Rightarrow> string" where
  "universal_newlines [] = []"
| "universal_newlines [c] = (if c = CHR 0x0D then [CHR 0x0A] else [c])"
| "universal_newlines (c # d # cs) =
     (if c = CHR 0x0D \<and> d = CHR 0x0A then CHR 0x0A # universal_newlines cs
      else if c = CHR 0x0D then CHR 0x0A # universal_newlines (d # cs)
      else c # universal_newlines (d # cs))"

text \<open>\<^verbatim>\<open>len(repos)\<close> and \<^verbatim>\<open>enumerate(repos, 1)\<close>: the elements of a list, the keys of a
  dict, the characters of a str; any other value has no \<^verbatim>\<open>len\<close> (TypeError).\<close>

fun py_items :: "json \<Rightarrow> json list option" where
  "py_items (JArray xs) = Some xs"
| "py_items (JObject kvs) = Some (map (\<lambda>kv. JString (fst kv)) kvs)"
| "py_items (JString s) = Some (map (\<lambda>c. JString [c]) s)"
| "py_items _ = None"

text \<open>\<^verbatim>\<open>repo['name']\<close>: only a dict can be indexed with a str.\<close>

fun subscript_name :: "json \<Rightarrow> pyexn + json" where
  "subscript_name (JObject kvs) =
     (case map_of kvs ''name'' of None \<Rightarrow> Inl KeyError | Some v \<Rightarrow> Inr v)"
| "subscript_name _ = Inl TypeError"

text \<open>\<^verbatim>\<open>json.loads(signatures).get('enabled', False)\<close> on the loaded value: only a dict has
  \<^verbatim>\<open>get\<close>.\<close>

fun get_enabled :: "json \<Rightarrow> pyexn + json" where
  "get_enabled (JObject kvs) =
     (case map_of kvs ''enabled'' of None \<Rightarrow> Inr (JBool False) | Some v \<Rightarrow> Inr v)"
| "get_enabled _ = Inl AttributeError"

subsection \<open>The outside world and the state of a run\<close>

text \<open>What \<^verbatim>\<open>subprocess.run(command, shell=True, check=True, capture_output=True, text=True)\<close>
  does with a command line: the command exits with status zero and its standard output
  decodes to a text (here as decoded, before the translation of line ends); or it exits
  with another status, which is \<^verbatim>\<open>CalledProcessError\<close>; or the call raises another exception,
  as UnicodeDecodeError for an output that does not decode, ValueError for a command line
  with a NUL character, OSError when no process can be started.\<close>

datatype answer = Completed string | ExitNonzero | Raises pyexn

type_synonym shell = "string \<Rightarrow> answer"

text \<open>The texts written to the standard output, and the command lines handed to
  \<^verbatim>\<open>subprocess.run\<close>, both in order.\<close>

record world =
  stdout :: "string list"
  issued :: "string list"

definition stdout_write :: "string \<Rightarrow> world \<Rightarrow> world" where
  "stdout_write s w = w\<lparr>stdout := stdout w @ [s]\<rparr>"

definition py_print :: "string \<Rightarrow> world \<Rightarrow> world" where
  "py_print s w = stdout_write (s @ [CHR 0x0A]) w"

datatype ending = Exited nat | Uncaught pyexn

fun exit_code :: "ending \<Rightarrow> nat" where
  "exit_code (Exited n) = n"
| "exit_code (Uncaught e) = 1"

record outcome =
  final :: world
  count :: "nat option"
  status :: ending

subsection \<open>The functions of the script\<close>

text \<open>\<^verbatim>\<open>run_command\<close> catches \<^verbatim>\<open>CalledProcessError\<close> and nothing else.\<close>

definition run_command :: "shell \<Rightarrow> string \<Rightarrow> world \<Rightarrow> (pyexn + string option) \<times> world" where
  "run_command sh command w =
     (case sh command of
        Completed out \<Rightarrow> Inr (Some (strip (universal_newlines out)))
      | ExitNonzero \<Rightarrow> Inr None
      | Raises e \<Rightarrow> Inl e,
      w\<lparr>issued := issued w @ [command]\<rparr>)"

text \<open>The command lines, as the f-strings of the script build them.\<close>

definition list_cmd :: "string \<Rightarrow> string" where
  "list_cmd org_name = ''gh repo list '' @ org_name @ '' --limit 1000 --json name''"

definition branch_cmd :: "string \<Rightarrow> string \<Rightarrow> string \<Rightarrow> string" where
  "branch_cmd org_name repo_name branch =
     ''gh api repos/'' @ org_name @ ''/'' @ repo_name @ ''/branches/'' @ branch"

definition protection_cmd :: "string \<Rightarrow> string \<Rightarrow> string \<Rightarrow> string" where
  "protection_cmd org_name repo_name branch_name =
     ''gh api repos/'' @ org_name @ ''/'' @ repo_name @ ''/branches/'' @ branch_name
       @ ''/protection''"

definition signatures_cmd :: "string \<Rightarrow> string \<Rightarrow> string \<Rightarrow> string" where
  "signatures_cmd org_name repo_name branch_name =
     ''gh api repos/'' @ org_name @ ''/'' @ repo_name @ ''/branches/'' @ branch_name
       @ ''/protection/required_signatures''"

definition check_branch_protection ::
  "shell \<Rightarrow> string \<Rightarrow> string \<Rightarrow> string \<Rightarrow> world \<Rightarrow> (pyexn + bool) \<times> world" where
  "check_branch_protection sh org_name repo_name branch_name w =
     (case run_command sh (protection_cmd org_name repo_name branch_name) w of
        (Inl e, w') \<Rightarrow> (Inl e, w')
      | (Inr protection, w') \<Rightarrow> (Inr (protection \<noteq> None), w'))"

definition check_required_signatures ::
  "pylib \<Rightarrow> shell \<Rightarrow> string \<Rightarrow> string \<Rightarrow> string \<Rightarrow> world \<Rightarrow> (pyexn + json) \<times> world" where
  "check_required_signatures lib sh org_name repo_name branch_name w =
     (case run_command sh (signatures_cmd org_name repo_name branch_name) w of
        (Inl e, w') \<Rightarrow> (Inl e, w')
      | (Inr signatures, w') \<Rightarrow>
          if str_truthy signatures then
            (case json_loads lib (the signatures) of
               Inl e \<Rightarrow> (if e = JSONDecodeError then (Inr (JBool False), w') else (Inl e, w'))
             | Inr v \<Rightarrow> (get_enabled v, w'))
          else (Inr (JBool False), w'))"

text \<open>The loop \<^verbatim>\<open>for branch in ['main', 'master']: ... else: ...\<close> over the branches still to
  probe; \<^verbatim>\<open>issues\<close> is the list being filled. The result is the exception that got out,
  or the issues.\<close>

fun branch_loop ::
  "pylib \<Rightarrow> shell \<Rightarrow> string \<Rightarrow> string \<Rightarrow> string list \<Rightarrow> string list \<Rightarrow> world
     \<Rightarrow> (pyexn + string list) \<times> world" where
  "branch_loop lib sh org_name repo_name [] issues w =
     (Inr (issues @ [''No main or master branch found'']), w)"
| "branch_loop lib sh org_name repo_name (branch # rest) issues w =
     (case run_command sh (branch_cmd org_name repo_name branch) w of
        (Inl e, w1) \<Rightarrow> (Inl e, w1)
      | (Inr branch_exists, w1) \<Rightarrow>
          if str_truthy branch_exists then
            (case check_branch_protection sh org_name repo_name branch w1 of
               (Inl e, w2) \<Rightarrow> (Inl e, w2)
             | (Inr is_protected, w2) \<Rightarrow>
                 if \<not> is_protected then
                   (Inr (issues @ [[CHR 0x27] @ branch @ [CHR 0x27] @ '' branch is not protected'']),
                    w2)
                 else
                   (case check_required_signatures lib sh org_name repo_name branch w2 of
                      (Inl e, w3) \<Rightarrow> (Inl e, w3)
                    | (Inr signatures_required, w3) \<Rightarrow>
                        if \<not> truthy signatures_required then
                          (Inr (issues @ [''Commit signing not required for '' @ [CHR 0x27]
                                            @ branch @ [CHR 0x27] @ '' branch'']), w3)
                        else (Inr issues, w3)))
          else branch_loop lib sh org_name repo_name rest issues w1)"

text \<open>The progress line, the line that clears it, and the report of one repository.\<close>

definition progress_line :: "nat \<Rightarrow> nat \<Rightarrow> string \<Rightarrow> string" where
  "progress_line i total_repos repo_name =
     [CHR 0x0D] @ ''Processing: '' @ str_nat i @ ''/'' @ str_nat total_repos @ '' (''
       @ repo_name @ '')'' @ replicate 20 CHR '' ''"

definition clear_line :: string where
  "clear_line = [CHR 0x0D] @ replicate 80 CHR '' '' @ [CHR 0x0D]"

definition print_issues :: "string \<Rightarrow> string \<Rightarrow> string list \<Rightarrow> world \<Rightarrow> world" where
  "print_issues org_name repo_name issues w =
     foldl (\<lambda>w' issue. py_print (''  - '' @ issue) w')
       (py_print ([CHR 0x0A] @ org_name @ ''/'' @ repo_name @ '':'') (stdout_write clear_line w))
       issues"

text \<open>The loop \<^verbatim>\<open>for i, repo in enumerate(repos, 1)\<close> over the repositories still to scan,
  with the counter \<^verbatim>\<open>non_compliant_count\<close>.\<close>

fun repo_loop ::
  "pylib \<Rightarrow> shell \<Rightarrow> string \<Rightarrow> nat \<Rightarrow> nat \<Rightarrow> json list \<Rightarrow> nat \<Rightarrow> world
     \<Rightarrow> pyexn option \<times> nat \<times> world" where
  "repo_loop lib sh org_name total_repos i [] non_compliant_count w =
     (None, non_compliant_count, w)"
| "repo_loop lib sh org_name total_repos i (repo # rest) non_compliant_count w =
     (case subscript_name repo of
        Inl e \<Rightarrow> (Some e, non_compliant_count, w)
      | Inr name \<Rightarrow>
          (let repo_name = py_format lib name;
               w1 = stdout_write (progress_line i total_repos repo_name) w
           in case branch_loop lib sh org_name repo_name [''main'', ''master''] [] w1 of
                (Inl e, w2) \<Rightarrow> (Some e, non_compliant_count, w2)
              | (Inr issues, w2) \<Rightarrow>
                  if issues \<noteq> []
                  then repo_loop lib sh org_name total_repos (Suc i) rest
                         (non_compliant_count + 1) (print_issues org_name repo_name issues w2)
                  else repo_loop lib sh org_name total_repos (Suc i) rest
                         non_compliant_count w2))"

text \<open>The summary line (lines 99 to 102).\<close>

definition summary_line :: "nat \<Rightarrow> nat \<Rightarrow> string" where
  "summary_line non_compliant_count total_repos =
     (if non_compliant_count = 0 then [CHR 0x0A] @ ''All repositories meet the requirements.''
      else [CHR 0x0A] @ ''Total: '' @ str_nat non_compliant_count
             @ '' non-compliant repositories out of '' @ str_nat total_repos)"

definition world0 :: world where
  "world0 = \<lparr>stdout = [], issued = []\<rparr>"

text \<open>\<^verbatim>\<open>main\<close>, from \<^verbatim>\<open>sys.argv\<close>. \<^verbatim>\<open>sys.exit(1)\<close> ends the run with status 1, the end of
  \<^verbatim>\<open>main\<close> with status 0, an exception that nothing catches with a traceback.\<close>

definition main :: "pylib \<Rightarrow> shell \<Rightarrow> string list \<Rightarrow> outcome" where
  "main lib sh argv =
     (if length argv \<noteq> 2 then
        (case argv of
           [] \<Rightarrow> \<lparr>final = world0, count = None, status = Uncaught IndexError\<rparr>
         | prog # _ \<Rightarrow>
             \<lparr>final = py_print (''Usage: '' @ prog @ '' <organization-name>'') world0,
              count = None, status = Exited 1\<rparr>)
      else
        (let org_name = argv ! 1;
             w1 = py_print (''Fetching repositories for organization: '' @ org_name @ ''...'')
                    world0
         in case run_command sh (list_cmd org_name) w1 of
              (Inl e, w2) \<Rightarrow> \<lparr>final = w2, count = Some 0, status = Uncaught e\<rparr>
            | (Inr repos_json, w2) \<Rightarrow>
                if \<not> str_truthy repos_json then
                  \<lparr>final = py_print ''No repositories found or error accessing the organization.''
                             w2,
                   count = Some 0, status = Exited 1\<rparr>
                else
                  (case json_loads lib (the repos_json) of
                     Inl e \<Rightarrow> \<lparr>final = w2, count = Some 0, status = Uncaught e\<rparr>
                   | Inr repos \<Rightarrow>
                       (case py_items repos of
                          None \<Rightarrow> \<lparr>final = w2, count = Some 0, status = Uncaught TypeError\<rparr>
                        | Some items \<Rightarrow>
                            (let total_repos = length items;
                                 w3 = py_print (''Found '' @ str_nat total_repos
                                        @ '' repositories. Checking compliance for each repository...'')
                                        w2;
                                 w4 = py_print
                                        ([CHR 0x0A] @ ''Repositories not meeting requirements:'') w3
                             in case repo_loop lib sh org_name total_repos 1 items 0 w4 of
                                  (Some e, n, w5) \<Rightarrow>
                                    \<lparr>final = w5, count = Some n, status = Uncaught e\<rparr>
                                | (None, n, w5) \<Rightarrow>
                                    \<lparr>final = py_print (summary_line n total_repos)
                                               (stdout_write clear_line w5),
                                     count = Some n, status = Exited 0\<rparr>)))))"

subsection \<open>What one check answers, apart from the state\<close>

text \<open>The answers of the three checks on a branch, read off the functions above at the
  initial state: the state passed in is only ever extended, so they are the answers at
  any state.\<close>

definition branch_exists :: "shell \<Rightarrow> string \<Rightarrow> string \<Rightarrow> string \<Rightarrow> pyexn + bool" where
  "branch_exists sh org_name repo_name branch =
     (case fst (run_command sh (branch_cmd org_name repo_name branch) world0) of
        Inl e \<Rightarrow> Inl e
      | Inr answer \<Rightarrow> Inr (str_truthy answer))"

definition is_protected :: "shell \<Rightarrow> string \<Rightarrow> string \<Rightarrow> string \<Rightarrow> pyexn + bool" where
  "is_protected sh org_name repo_name branch =
     fst (check_branch_protection sh org_name repo_name branch world0)"

definition signatures_value :: "pylib \<Rightarrow> shell \<Rightarrow> string \<Rightarrow> string \<Rightarrow> string \<Rightarrow> pyexn + json" where
  "signatures_value lib sh org_name repo_name branch =
     fst (check_required_signatures lib sh org_name repo_name branch world0)"

text \<open>Whether the caller takes the signatures as required: the truth value of what
  \<^verbatim>\<open>check_required_signatures\<close> returns.\<close>

definition signatures_required :: "pylib \<Rightarrow> shell \<Rightarrow> string \<Rightarrow> string \<Rightarrow> string \<Rightarrow> bool" where
  "signatures_required lib sh org_name repo_name branch =
     (case signatures_value lib sh org_name repo_name branch of
        Inl e \<Rightarrow> False | Inr v \<Rightarrow> truthy v)"

text \<open>The branch that the loop over \<^verbatim>\<open>['main', 'master']\<close> stops at, if any, or the
  exception that a probe raises.\<close>

definition primary_branch :: "shell \<Rightarrow> string \<Rightarrow> string \<Rightarrow> pyexn + string option" where
  "primary_branch sh org_name repo_name =
     (case branch_exists sh org_name repo_name ''main'' of
        Inl e \<Rightarrow> Inl e
      | Inr main_exists \<Rightarrow>
          if main_exists then Inr (Some ''main'')
          else (case branch_exists sh org_name repo_name ''master'' of
                  Inl e \<Rightarrow> Inl e
                | Inr master_exists \<Rightarrow>
                    if master_exists then Inr (Some ''master'') else Inr None))"

text \<open>What the body of the loop does on a branch that exists: the issues (or the
  exception), and the commands it runs.\<close>

definition branch_checks ::
  "pylib \<Rightarrow> shell \<Rightarrow> string \<Rightarrow> string \<Rightarrow> string \<Rightarrow> pyexn + string list" where
  "branch_checks lib sh org_name repo_name branch =
     (case is_protected sh org_name repo_name branch of
        Inl e \<Rightarrow> Inl e
      | Inr protected \<Rightarrow>
          if \<not> protected
          then Inr [[CHR 0x27] @ branch @ [CHR 0x27] @ '' branch is not protected'']
          else (case signatures_value lib sh org_name repo_name branch of
                  Inl e \<Rightarrow> Inl e
                | Inr v \<Rightarrow>
                    Inr (if truthy v then []
                         else [''Commit signing not required for '' @ [CHR 0x27] @ branch
                                 @ [CHR 0x27] @ '' branch''])))"

definition check_cmds :: "shell \<Rightarrow> string \<Rightarrow> string \<Rightarrow> string \<Rightarrow> string list" where
  "check_cmds sh org_name repo_name branch =
     (if is_protected sh org_name repo_name branch = Inr True
      then [protection_cmd org_name repo_name branch, signatures_cmd org_name repo_name branch]
      else [protection_cmd org_name repo_name branch])"

subsection \<open>What one run scans, apart from the state\<close>

text \<open>The repositories that \<^verbatim>\<open>main\<close> iterates over: the items of the loaded listing.\<close>

definition listed_repos :: "pylib \<Rightarrow> shell \<Rightarrow> string \<Rightarrow> json list" where
  "listed_repos lib sh org_name =
     (case fst (run_command sh (list_cmd org_name) world0) of
        Inl e \<Rightarrow> []
      | Inr None \<Rightarrow> []
      | Inr (Some repos_json) \<Rightarrow>
          (case json_loads lib repos_json of
             Inl e \<Rightarrow> []
           | Inr repos \<Rightarrow> (case py_items repos of None \<Rightarrow> [] | Some items \<Rightarrow> items)))"

text \<open>The issue list that the body of the loop over the repositories builds for one of
  them, or the exception that gets out of it.\<close>

definition repo_result :: "pylib \<Rightarrow> shell \<Rightarrow> string \<Rightarrow> json \<Rightarrow> pyexn + string list" where
  "repo_result lib sh org_name repo =
     (case subscript_name repo of
        Inl e \<Rightarrow> Inl e
      | Inr name \<Rightarrow>
          fst (branch_loop lib sh org_name (py_format lib name) [''main'', ''master''] [] world0))"

text \<open>A repository is counted when its issue list is not empty (line 83).\<close>

definition non_compliant :: "pylib \<Rightarrow> shell \<Rightarrow> string \<Rightarrow> json \<Rightarrow> bool" where
  "non_compliant lib sh org_name repo =
     (case repo_result lib sh org_name repo of Inl e \<Rightarrow> False | Inr issues \<Rightarrow> issues \<noteq> [])"

text \<open>A repository meets the requirements when it has a primary branch, that branch is
  protected, and signatures are required on it.\<close>

definition repo_compliant :: "pylib \<Rightarrow> shell \<Rightarrow> string \<Rightarrow> json \<Rightarrow> bool" where
  "repo_compliant lib sh org_name repo =
     (case subscript_name repo of
        Inl e \<Rightarrow> False
      | Inr name \<Rightarrow>
          (case primary_branch sh org_name (py_format lib name) of
             Inl e \<Rightarrow> False
           | Inr None \<Rightarrow> False
           | Inr (Some branch) \<Rightarrow>
               is_protected sh org_name (py_format lib name) branch = Inr True
               \<and> signatures_required lib sh org_name (py_format lib name) branch))"

text \<open>The first exception that gets out of the loop over the repositories, if any.\<close>

fun first_failure :: "pylib \<Rightarrow> shell \<Rightarrow> string \<Rightarrow> json list \<Rightarrow> pyexn option" where
  "first_failure lib sh org_name [] = None"
| "first_failure lib sh org_name (repo # rest) =
     (case repo_result lib sh org_name repo of
        Inl e \<Rightarrow> Some e
      | Inr issues \<Rightarrow> first_failure lib sh org_name rest)"

text \<open>The state of \<^verbatim>\<open>main\<close> after the listing call (line 43), and when the loop over the
  repositories starts (line 54).\<close>

definition listing_done :: "string \<Rightarrow> world" where
  "listing_done org_name =
     \<lparr>stdout = [''Fetching repositories for organization: '' @ org_name @ ''...'' @ [CHR 0x0A]],
      issued = [list_cmd org_name]\<rparr>"

definition loop_start :: "string \<Rightarrow> nat \<Rightarrow> world" where
  "loop_start org_name total_repos =
     py_print ([CHR 0x0A] @ ''Repositories not meeting requirements:'')
       (py_print (''Found '' @ str_nat total_repos
           @ '' repositories. Checking compliance for each repository...'')
         (listing_done org_name))"

text \<open>The number that a text of decimal digits stands for.\<close>

definition read_nat :: "string \<Rightarrow> nat" where
  "read_nat s = foldl (\<lambda>n c. 10 * n + (of_char c - 48)) 0 s"

subsection \<open>Sample runs\<close>

text \<open>A finite part of \<^verbatim>\<open>json.loads\<close> for the sample runs: the texts below with the values
  that Python loads from them; \<^verbatim>\<open>json.loads\<close> raises JSONDecodeError on the text
  \<^verbatim>\<open><html>\<close>, the only other text that a sample run loads.\<close>

definition sample_loads :: "string \<Rightarrow> pyexn + json" where
  \<open>sample_loads s =
     (case map_of
        [(''[]'', JArray []),
         (''[{"name":"app"}]'', JArray [JObject [(''name'', JString ''app'')]]),
         (''[{"name":"A"},{"name":"B"},{"name":"C"}]'',
            JArray [JObject [(''name'', JString ''A'')], JObject [(''name'', JString ''B'')],
                    JObject [(''name'', JString ''C'')]]),
         (''{"enabled":true}'', JObject [(''enabled'', JBool True)]),
         (''{"enabled":"false"}'', JObject [(''enabled'', JString ''false'')]),
         (''{"url":"u"}'', JObject [(''url'', JString ''u'')])] s of
        None \<Rightarrow> Inl JSONDecodeError
      | Some v \<Rightarrow> Inr v)\<close>

text \<open>Every repository name of the sample runs is a str, so the text for other values is
  never asked for.\<close>

definition sample_lib :: pylib where
  "sample_lib = \<lparr>json_loads = sample_loads, format_other = (\<lambda>v. [])\<rparr>"

text \<open>A world given by a table: the commands of the table exit with status zero and print
  the text beside them, every other command exits with another status.\<close>

definition table_shell :: "(string \<times> string) list \<Rightarrow> shell" where
  "table_shell table command =
     (case map_of table command of None \<Rightarrow> ExitNonzero | Some out \<Rightarrow> Completed out)"

text \<open>An organization without repositories: \<^verbatim>\<open>gh repo list --json name\<close> succeeds and
  prints an empty JSON list.\<close>

definition empty_org_shell :: shell where
  "empty_org_shell = table_shell [(list_cmd ''acme'', ''[]'')]"

text \<open>A listing that is not JSON.\<close>

definition bad_listing_shell :: shell where
  "bad_listing_shell = table_shell [(list_cmd ''acme'', ''<html>'')]"

text \<open>A repository with a branch \<^verbatim>\<open>main\<close> whose protection call succeeds and prints nothing;
  signatures are enabled.\<close>

definition empty_protection_shell :: shell where
  \<open>empty_protection_shell = table_shell
     [(branch_cmd ''acme'' ''app'' ''main'', ''{"name":"main"}''),
      (protection_cmd ''acme'' ''app'' ''main'', []),
      (signatures_cmd ''acme'' ''app'' ''main'', ''{"enabled":true}'')]\<close>

text \<open>A probe of \<^verbatim>\<open>main\<close> that succeeds and prints an empty line; \<^verbatim>\<open>master\<close> is absent.\<close>

definition blank_probe_shell :: shell where
  "blank_probe_shell = table_shell [(branch_cmd ''acme'' ''app'' ''main'', [CHR 0x0A])]"

text \<open>A repository with a branch \<^verbatim>\<open>main\<close> that has no protection, and one with a branch
  \<^verbatim>\<open>master\<close> only, without protection.\<close>

definition unprotected_shell :: shell where
  \<open>unprotected_shell = table_shell [(branch_cmd ''acme'' ''app'' ''main'', ''{"name":"main"}'')]\<close>

definition unprotected_master_shell :: shell where
  \<open>unprotected_master_shell =
     table_shell [(branch_cmd ''acme'' ''old'' ''master'', ''{"name":"master"}'')]\<close>

text \<open>One repository, \<^verbatim>\<open>main\<close> protected; the signatures call answers with the text given.\<close>

definition signatures_shell :: "string \<Rightarrow> shell" where
  \<open>signatures_shell answer = table_shell
     [(list_cmd ''acme'', ''[{"name":"app"}]''),
      (branch_cmd ''acme'' ''app'' ''main'', ''{"name":"main"}''),
      (protection_cmd ''acme'' ''app'' ''main'', ''{"url":"u"}''),
      (signatures_cmd ''acme'' ''app'' ''main'', answer)]\<close>

text \<open>The organization of the scenario of the specification: \<^verbatim>\<open>A\<close> has \<^verbatim>\<open>main\<close>, protected,
  with signatures enabled; \<^verbatim>\<open>B\<close> has \<^verbatim>\<open>main\<close> without protection; \<^verbatim>\<open>C\<close> has neither \<^verbatim>\<open>main\<close>
  nor \<^verbatim>\<open>master\<close>.\<close>

definition acme_shell :: shell where
  \<open>acme_shell = table_shell
     [(list_cmd ''acme'', ''[{"name":"A"},{"name":"B"},{"name":"C"}]''),
      (branch_cmd ''acme'' ''A'' ''main'', ''{"name":"main"}''),
      (protection_cmd ''acme'' ''A'' ''main'', ''{"url":"u"}''),
      (signatures_cmd ''acme'' ''A'' ''main'', ''{"enabled":true}''),
      (branch_cmd ''acme'' ''B'' ''main'', ''{"name":"main"}'')]\<close>

text \<open>The repository whose signatures call prints \<^verbatim>\<open><html>\<close>, in a world where it also has
  a branch \<^verbatim>\<open>master\<close>.\<close>

definition other_master_shell :: shell where
  \<open>other_master_shell = table_shell
     [(list_cmd ''acme'', ''[{"name":"app"}]''),
      (branch_cmd ''acme'' ''app'' ''main'', ''{"name":"main"}''),
      (branch_cmd ''acme'' ''app'' ''master'', ''{"name":"master"}''),
      (protection_cmd ''acme'' ''app'' ''main'', ''{"url":"u"}''),
      (signatures_cmd ''acme'' ''app'' ''main'', ''<html>'')]\<close>

section \<open>Properties\<close>

subsection \<open>The checks, one by one\<close>

lemma run_command_eq:
  "run_command sh c w = (fst (run_command sh c world0), w\<lparr>issued := issued w @ [c]\<rparr>)"
  by (simp add: run_command_def)

lemma check_branch_protection_eq:
  "check_branch_protection sh org repo b w =
     (is_protected sh org repo b, w\<lparr>issued := issued w @ [protection_cmd org repo b]\<rparr>)"
  by (simp add: check_branch_protection_def is_protected_def run_command_def
      split: answer.splits)

lemma check_required_signatures_eq:
  "check_required_signatures lib sh org repo b w =
     (signatures_value lib sh org repo b, w\<lparr>issued := issued w @ [signatures_cmd org repo b]\<rparr>)"
  by (simp add: check_required_signatures_def signatures_value_def run_command_def
      split: answer.splits sum.splits)

lemma branch_exists_iff:
  "branch_exists sh org repo b =
     (case sh (branch_cmd org repo b) of
        Completed out \<Rightarrow> Inr (strip (universal_newlines out) \<noteq> [])
      | ExitNonzero \<Rightarrow> Inr False
      | Raises e \<Rightarrow> Inl e)"
  by (simp add: branch_exists_def run_command_def split: answer.splits)

lemma is_protected_iff:
  "is_protected sh org repo b =
     (case sh (protection_cmd org repo b) of
        Completed out \<Rightarrow> Inr True
      | ExitNonzero \<Rightarrow> Inr False
      | Raises e \<Rightarrow> Inl e)"
  by (simp add: is_protected_def check_branch_protection_def run_command_def
      split: answer.splits)

lemma branch_loop_Cons:
  "branch_loop lib sh org repo (b # bs) [] w =
     (case branch_exists sh org repo b of
        Inl e \<Rightarrow> (Inl e, w\<lparr>issued := issued w @ [branch_cmd org repo b]\<rparr>)
      | Inr exists \<Rightarrow>
          if exists
          then (branch_checks lib sh org repo b,
                w\<lparr>issued := issued w @ branch_cmd org repo b # check_cmds sh org repo b\<rparr>)
          else branch_loop lib sh org repo bs []
                 (w\<lparr>issued := issued w @ [branch_cmd org repo b]\<rparr>))"
  by (cases "sh (branch_cmd org repo b)")
    (auto simp: branch_exists_def run_command_def check_branch_protection_eq
      check_required_signatures_eq branch_checks_def check_cmds_def
      split: sum.splits bool.splits)

lemma branch_loop_two:
  "branch_loop lib sh org repo [''main'', ''master''] [] w =
     (case branch_exists sh org repo ''main'' of
        Inl e \<Rightarrow> (Inl e, w\<lparr>issued := issued w @ [branch_cmd org repo ''main'']\<rparr>)
      | Inr main_exists \<Rightarrow>
          if main_exists then
            (branch_checks lib sh org repo ''main'',
             w\<lparr>issued := issued w
                  @ branch_cmd org repo ''main'' # check_cmds sh org repo ''main''\<rparr>)
          else
            (case branch_exists sh org repo ''master'' of
               Inl e \<Rightarrow>
                 (Inl e,
                  w\<lparr>issued := issued w
                       @ [branch_cmd org repo ''main'', branch_cmd org repo ''master'']\<rparr>)
             | Inr master_exists \<Rightarrow>
                 if master_exists then
                   (branch_checks lib sh org repo ''master'',
                    w\<lparr>issued := issued w @ branch_cmd org repo ''main''
                         # branch_cmd org repo ''master'' # check_cmds sh org repo ''master''\<rparr>)
                 else
                   (Inr [''No main or master branch found''],
                    w\<lparr>issued := issued w
                         @ [branch_cmd org repo ''main'', branch_cmd org repo ''master'']\<rparr>)))"
  by (simp add: branch_loop_Cons del: branch_loop.simps(2) split: sum.splits)

text \<open>The command lines of one repository are told apart by what follows the branch.\<close>

lemma signatures_cmd_neq_branch_cmd:
  assumes "length c < 31"
  shows "signatures_cmd org repo b \<noteq> branch_cmd org repo c"
proof
  assume "signatures_cmd org repo b = branch_cmd org repo c"
  then have "b @ ''/protection/required_signatures'' = c"
    by (simp add: signatures_cmd_def branch_cmd_def)
  then have "length (b @ ''/protection/required_signatures'') = length c"
    by (rule arg_cong)
  with assms show False by simp
qed

lemma signatures_cmd_neq_protection_cmd:
  assumes "length c < 20"
  shows "signatures_cmd org repo b \<noteq> protection_cmd org repo c"
proof
  assume "signatures_cmd org repo b = protection_cmd org repo c"
  then have "b @ ''/protection/required_signatures'' = c @ ''/protection''"
    by (simp add: signatures_cmd_def protection_cmd_def)
  then have "length (b @ ''/protection/required_signatures'') = length (c @ ''/protection'')"
    by (rule arg_cong)
  with assms show False by simp
qed

lemma protection_cmd_neq_branch_cmd:
  assumes "length c < 11"
  shows "protection_cmd org repo b \<noteq> branch_cmd org repo c"
proof
  assume "protection_cmd org repo b = branch_cmd org repo c"
  then have "b @ ''/protection'' = c"
    by (simp add: protection_cmd_def branch_cmd_def)
  then have "length (b @ ''/protection'') = length c"
    by (rule arg_cong)
  with assms show False by simp
qed

lemma master_probe_not_in_main_checks:
  "branch_cmd org repo ''master''
     \<notin> set (branch_cmd org repo ''main'' # check_cmds sh org repo ''main'')"
  by (simp add: check_cmds_def branch_cmd_def protection_cmd_def signatures_cmd_def)

text \<open>The primary branch is \<^verbatim>\<open>main\<close>, or \<^verbatim>\<open>master\<close> when \<^verbatim>\<open>main\<close> does not exist.\<close>

lemma primary_branch_cases:
  assumes "primary_branch sh org repo = Inr (Some b)"
  shows "b = ''main'' \<and> branch_exists sh org repo ''main'' = Inr True
       \<or> b = ''master'' \<and> branch_exists sh org repo ''main'' = Inr False
           \<and> branch_exists sh org repo ''master'' = Inr True"
  using assms by (auto simp: primary_branch_def split: if_splits sum.splits)

lemma primary_branch_none:
  assumes "primary_branch sh org repo = Inr None"
  shows "branch_exists sh org repo ''main'' = Inr False
       \<and> branch_exists sh org repo ''master'' = Inr False"
  using assms by (auto simp: primary_branch_def split: if_splits sum.splits)

subsection \<open>The listing\<close>

text \<open>When the listing call exits with a status other than zero, or prints nothing but
  white space, the run prints the message of line 45 and ends with status 1, the listing
  being the only command run.\<close>

lemma listing_failure_aborts:
  assumes "sh (list_cmd org) = ExitNonzero
         \<or> (\<exists>out. sh (list_cmd org) = Completed out \<and> strip (universal_newlines out) = [])"
  shows "status (main lib sh [prog, org]) = Exited 1"
    and "last (stdout (final (main lib sh [prog, org])))
           = ''No repositories found or error accessing the organization.'' @ [CHR 0x0A]"
    and "issued (final (main lib sh [prog, org])) = [list_cmd org]"
  using assms
  by (auto simp add: main_def run_command_def py_print_def stdout_write_def world0_def)

text \<open>C1: when the listing call fails or the organization has no repositories, the program
  prints an error message and exits with status 1. The script means to (its message begins
  "No repositories found") but misses an organization without repositories, for which the
  listing call succeeds and prints \<^verbatim>\<open>[]\<close>: that text is not empty, the script loads it,
  finds 0 repositories, reports that all repositories meet the requirements and ends with
  status 0.\<close>

theorem empty_org_exits_zero:
  "empty_org_shell (''gh repo list acme --limit 1000 --json name'') = Completed ''[]''
   \<and> json_loads sample_lib ''[]'' = Inr (JArray [])
   \<and> exit_code (status (main sample_lib empty_org_shell [''scan'', ''acme''])) = 0
   \<and> stdout (final (main sample_lib empty_org_shell [''scan'', ''acme''])) =
       [''Fetching repositories for organization: acme...'' @ [CHR 0x0A],
        ''Found 0 repositories. Checking compliance for each repository...'' @ [CHR 0x0A],
        [CHR 0x0A] @ ''Repositories not meeting requirements:'' @ [CHR 0x0A],
        [CHR 0x0D] @ replicate 80 CHR '' '' @ [CHR 0x0D],
        [CHR 0x0A] @ ''All repositories meet the requirements.'' @ [CHR 0x0A]]"
  by code_simp

subsection \<open>Branch protection\<close>

text \<open>C2, as the code has it: for every organization, repository and branch,
  \<^verbatim>\<open>check_branch_protection\<close> returns true if and only if the protection call exits with
  status zero, whatever it prints, an empty output included, and the loop over the
  branches then goes on to the signatures check; it returns false, which is not an error,
  exactly when the call exits with another status; any other exception of the call is not
  caught and gets out of the check. It runs the protection command and nothing else.\<close>

theorem check_branch_protection_answers:
  "fst (check_branch_protection sh org repo b w) =
     (case sh (''gh api repos/'' @ org @ ''/'' @ repo @ ''/branches/'' @ b @ ''/protection'') of
        Completed out \<Rightarrow> Inr True
      | ExitNonzero \<Rightarrow> Inr False
      | Raises e \<Rightarrow> Inl e)
   \<and> snd (check_branch_protection sh org repo b w) =
       w\<lparr>issued := issued w
            @ [''gh api repos/'' @ org @ ''/'' @ repo @ ''/branches/'' @ b @ ''/protection'']\<rparr>
   \<and> (branch_exists sh org repo ''main'' = Inr True
        \<and> sh (''gh api repos/'' @ org @ ''/'' @ repo @ ''/branches/main/protection'')
            = Completed out \<longrightarrow>
        branch_loop lib sh org repo [''main'', ''master''] [] w =
          (case signatures_value lib sh org repo ''main'' of
             Inl e \<Rightarrow> Inl e
           | Inr v \<Rightarrow>
               Inr (if truthy v then []
                    else [''Commit signing not required for '' @ [CHR 0x27] @ ''main''
                            @ [CHR 0x27] @ '' branch'']),
           w\<lparr>issued := issued w @
               [''gh api repos/'' @ org @ ''/'' @ repo @ ''/branches/main'',
                ''gh api repos/'' @ org @ ''/'' @ repo @ ''/branches/main/protection'',
                ''gh api repos/'' @ org @ ''/'' @ repo
                  @ ''/branches/main/protection/required_signatures'']\<rparr>))"
proof -
  have "branch_loop lib sh org repo [''main'', ''master''] [] w =
          (case signatures_value lib sh org repo ''main'' of
             Inl e \<Rightarrow> Inl e
           | Inr v \<Rightarrow>
               Inr (if truthy v then []
                    else [''Commit signing not required for '' @ [CHR 0x27] @ ''main''
                            @ [CHR 0x27] @ '' branch'']),
           w\<lparr>issued := issued w @
               [branch_cmd org repo ''main'', protection_cmd org repo ''main'',
                signatures_cmd org repo ''main'']\<rparr>)"
    if "branch_exists sh org repo ''main'' = Inr True"
      and "sh (protection_cmd org repo ''main'') = Completed out"
    using that
    by (simp add: branch_loop_two branch_checks_def check_cmds_def is_protected_iff
        del: branch_loop.simps)
  then show ?thesis
    by (simp add: check_branch_protection_eq is_protected_iff branch_cmd_def
        protection_cmd_def signatures_cmd_def del: branch_loop.simps)
qed

text \<open>C2 at a repository whose protection call succeeds and prints nothing, with signatures
  enabled: no issue is recorded.\<close>

theorem check_branch_protection_answers_witness:
  \<open>branch_exists empty_protection_shell ''acme'' ''app'' ''main'' = Inr True
   \<and> empty_protection_shell (''gh api repos/'' @ ''acme'' @ ''/'' @ ''app''
         @ ''/branches/main/protection'') = Completed []
   \<and> fst (check_branch_protection empty_protection_shell ''acme'' ''app'' ''main'' world0)
       = Inr True
   \<and> fst (branch_loop sample_lib empty_protection_shell ''acme'' ''app'' [''main'', ''master'']
            [] world0) = Inr []
   \<and> issued (snd (branch_loop sample_lib empty_protection_shell ''acme'' ''app''
            [''main'', ''master''] [] world0))
       = [''gh api repos/acme/app/branches/main'',
          ''gh api repos/acme/app/branches/main/protection'',
          ''gh api repos/acme/app/branches/main/protection/required_signatures'']\<close>
proof -
  have a: "branch_exists empty_protection_shell ''acme'' ''app'' ''main'' = Inr True"
    by code_simp
  have b: "empty_protection_shell (''gh api repos/'' @ ''acme'' @ ''/'' @ ''app''
         @ ''/branches/main/protection'') = Completed []"
    by code_simp
  have v: "signatures_value sample_lib empty_protection_shell ''acme'' ''app'' ''main''
      = Inr (JBool True)"
    by code_simp
  from check_branch_protection_answers [where sh = empty_protection_shell and org = "''acme''"
      and repo = "''app''" and b = "''main''" and w = world0 and out = "[]"
      and lib = sample_lib] a b v
  show ?thesis
    by (simp add: world0_def del: branch_loop.simps)
qed

text \<open>C2 as stated has the check return false when the call prints nothing. The script
  tests \<^verbatim>\<open>protection is not None\<close>, and the empty str is not \<^verbatim>\<open>None\<close>.\<close>

theorem protection_empty_output_counterexample:
  "empty_protection_shell (''gh api repos/acme/app/branches/main/protection'') = Completed []
   \<and> fst (check_branch_protection empty_protection_shell ''acme'' ''app'' ''main'' world0)
       = Inr True"
  by code_simp

subsection \<open>The primary branch\<close>

text \<open>C3, as the code has it: for every repository the loop probes \<^verbatim>\<open>main\<close> first and then
  \<^verbatim>\<open>master\<close>; a branch counts as existing when its probe exits with status zero and prints
  something other than white space, and as absent when the probe exits with another status
  or prints nothing else; the first existing branch is the one checked, and when that is
  \<^verbatim>\<open>main\<close> the probe of \<^verbatim>\<open>master\<close> is not run; when neither exists the issue list is
  exactly "No main or master branch found", and the two probes are the only commands run:
  no protection and no signatures command of the repository is among them. An exception
  of a probe other than \<^verbatim>\<open>CalledProcessError\<close> ends the loop.\<close>

theorem primary_branch_resolution:
  "branch_loop lib sh org repo [''main'', ''master''] [] w =
     (case branch_exists sh org repo ''main'' of
        Inl e \<Rightarrow>
          (Inl e,
           w\<lparr>issued := issued w
                @ [''gh api repos/'' @ org @ ''/'' @ repo @ ''/branches/main'']\<rparr>)
      | Inr main_exists \<Rightarrow>
          if main_exists then
            (branch_checks lib sh org repo ''main'',
             w\<lparr>issued := issued w
                  @ (''gh api repos/'' @ org @ ''/'' @ repo @ ''/branches/main'')
                  # check_cmds sh org repo ''main''\<rparr>)
          else
            (case branch_exists sh org repo ''master'' of
               Inl e \<Rightarrow>
                 (Inl e,
                  w\<lparr>issued := issued w
                       @ [''gh api repos/'' @ org @ ''/'' @ repo @ ''/branches/main'',
                          ''gh api repos/'' @ org @ ''/'' @ repo @ ''/branches/master'']\<rparr>)
             | Inr master_exists \<Rightarrow>
                 if master_exists then
                   (branch_checks lib sh org repo ''master'',
                    w\<lparr>issued := issued w
                         @ (''gh api repos/'' @ org @ ''/'' @ repo @ ''/branches/main'')
                         # (''gh api repos/'' @ org @ ''/'' @ repo @ ''/branches/master'')
                         # check_cmds sh org repo ''master''\<rparr>)
                 else
                   (Inr [''No main or master branch found''],
                    w\<lparr>issued := issued w
                         @ [''gh api repos/'' @ org @ ''/'' @ repo @ ''/branches/main'',
                            ''gh api repos/'' @ org @ ''/'' @ repo @ ''/branches/master'']\<rparr>)))
   \<and> branch_exists sh org repo b =
       (case sh (''gh api repos/'' @ org @ ''/'' @ repo @ ''/branches/'' @ b) of
          Completed out \<Rightarrow> Inr (strip (universal_newlines out) \<noteq> [])
        | ExitNonzero \<Rightarrow> Inr False
        | Raises e \<Rightarrow> Inl e)
   \<and> check_cmds sh org repo b =
       (if is_protected sh org repo b = Inr True
        then [''gh api repos/'' @ org @ ''/'' @ repo @ ''/branches/'' @ b @ ''/protection'',
              ''gh api repos/'' @ org @ ''/'' @ repo @ ''/branches/'' @ b
                @ ''/protection/required_signatures'']
        else [''gh api repos/'' @ org @ ''/'' @ repo @ ''/branches/'' @ b @ ''/protection''])
   \<and> (''gh api repos/'' @ org @ ''/'' @ repo @ ''/branches/master'')
       \<notin> set ((''gh api repos/'' @ org @ ''/'' @ repo @ ''/branches/main'')
                # check_cmds sh org repo ''main'')
   \<and> (''gh api repos/'' @ org @ ''/'' @ repo @ ''/branches/'' @ b @ ''/protection'')
       \<notin> set [''gh api repos/'' @ org @ ''/'' @ repo @ ''/branches/main'',
                ''gh api repos/'' @ org @ ''/'' @ repo @ ''/branches/master'']
   \<and> (''gh api repos/'' @ org @ ''/'' @ repo @ ''/branches/'' @ b
         @ ''/protection/required_signatures'')
       \<notin> set [''gh api repos/'' @ org @ ''/'' @ repo @ ''/branches/main'',
                ''gh api repos/'' @ org @ ''/'' @ repo @ ''/branches/master'']"
proof -
  have n: "protection_cmd org repo b \<noteq> branch_cmd org repo ''main''"
    "protection_cmd org repo b \<noteq> branch_cmd org repo ''master''"
    by (rule protection_cmd_neq_branch_cmd, simp)+
  have m: "signatures_cmd org repo b \<noteq> branch_cmd org repo ''main''"
    "signatures_cmd org repo b \<noteq> branch_cmd org repo ''master''"
    by (rule signatures_cmd_neq_branch_cmd, simp)+
  note cmds = branch_cmd_def protection_cmd_def signatures_cmd_def
  show ?thesis
  proof (intro conjI)
    show "branch_exists sh org repo b =
       (case sh (''gh api repos/'' @ org @ ''/'' @ repo @ ''/branches/'' @ b) of
          Completed out \<Rightarrow> Inr (strip (universal_newlines out) \<noteq> [])
        | ExitNonzero \<Rightarrow> Inr False
        | Raises e \<Rightarrow> Inl e)"
      using branch_exists_iff [of sh org repo b] by (simp add: cmds)
    show "check_cmds sh org repo b =
       (if is_protected sh org repo b = Inr True
        then [''gh api repos/'' @ org @ ''/'' @ repo @ ''/branches/'' @ b @ ''/protection'',
              ''gh api repos/'' @ org @ ''/'' @ repo @ ''/branches/'' @ b
                @ ''/protection/required_signatures'']
        else [''gh api repos/'' @ org @ ''/'' @ repo @ ''/branches/'' @ b @ ''/protection''])"
      by (simp add: check_cmds_def cmds)
    show "(''gh api repos/'' @ org @ ''/'' @ repo @ ''/branches/master'')
       \<notin> set ((''gh api repos/'' @ org @ ''/'' @ repo @ ''/branches/main'')
                # check_cmds sh org repo ''main'')"
      using master_probe_not_in_main_checks [of org repo sh] by (simp add: cmds)
    show "(''gh api repos/'' @ org @ ''/'' @ repo @ ''/branches/'' @ b @ ''/protection'')
       \<notin> set [''gh api repos/'' @ org @ ''/'' @ repo @ ''/branches/main'',
                ''gh api repos/'' @ org @ ''/'' @ repo @ ''/branches/master'']"
      using n by (simp add: cmds)
    show "(''gh api repos/'' @ org @ ''/'' @ repo @ ''/branches/'' @ b
         @ ''/protection/required_signatures'')
       \<notin> set [''gh api repos/'' @ org @ ''/'' @ repo @ ''/branches/main'',
                ''gh api repos/'' @ org @ ''/'' @ repo @ ''/branches/master'']"
      using m by (simp add: cmds)
  qed (simp add: branch_loop_two cmds del: branch_loop.simps split: sum.splits)
qed

text \<open>C3 as stated has any response that is not an error count as the branch existing. The
  script tests the truth value of the stripped output: a probe of \<^verbatim>\<open>main\<close> that succeeds
  and prints an empty line does not count, and with \<^verbatim>\<open>master\<close> absent the repository is
  reported as having no branch.\<close>

theorem blank_probe_counterexample:
  "blank_probe_shell (''gh api repos/acme/app/branches/main'') = Completed [CHR 0x0A]
   \<and> branch_loop sample_lib blank_probe_shell ''acme'' ''app'' [''main'', ''master''] [] world0
       = (Inr [''No main or master branch found''],
          \<lparr>stdout = [],
           issued = [''gh api repos/acme/app/branches/main'',
                     ''gh api repos/acme/app/branches/master'']\<rparr>)"
  by code_simp

text \<open>C4: for every repository whose primary branch exists and is not protected, the issue
  list is exactly the not-protected message with the name of that branch, and the commands
  run for the repository are the probes and the protection command: no signatures command
  of the repository, for any branch, is among them.\<close>

theorem unprotected_branch_issue:
  assumes "primary_branch sh org repo = Inr (Some b)"
    and "is_protected sh org repo b = Inr False"
  shows "fst (branch_loop lib sh org repo [''main'', ''master''] [] w)
           = Inr [[CHR 0x27] @ b @ [CHR 0x27] @ '' branch is not protected'']
       \<and> issued (snd (branch_loop lib sh org repo [''main'', ''master''] [] w))
           = issued w
               @ (if b = ''main'' then []
                  else [''gh api repos/'' @ org @ ''/'' @ repo @ ''/branches/main''])
               @ [''gh api repos/'' @ org @ ''/'' @ repo @ ''/branches/'' @ b,
                  ''gh api repos/'' @ org @ ''/'' @ repo @ ''/branches/'' @ b @ ''/protection'']
       \<and> (''gh api repos/'' @ org @ ''/'' @ repo @ ''/branches/'' @ b'
             @ ''/protection/required_signatures'')
           \<notin> set ((if b = ''main'' then []
                     else [''gh api repos/'' @ org @ ''/'' @ repo @ ''/branches/main''])
                    @ [''gh api repos/'' @ org @ ''/'' @ repo @ ''/branches/'' @ b,
                       ''gh api repos/'' @ org @ ''/'' @ repo @ ''/branches/'' @ b
                         @ ''/protection''])"
proof -
  have sig: "signatures_cmd org repo b' \<noteq> branch_cmd org repo ''main''"
    "signatures_cmd org repo b' \<noteq> branch_cmd org repo ''master''"
    "signatures_cmd org repo b' \<noteq> protection_cmd org repo ''main''"
    "signatures_cmd org repo b' \<noteq> protection_cmd org repo ''master''"
    by (simp_all add: signatures_cmd_neq_branch_cmd signatures_cmd_neq_protection_cmd)
  from primary_branch_cases [OF assms(1)] show ?thesis
  proof (elim disjE conjE)
    assume "b = ''main''" "branch_exists sh org repo ''main'' = Inr True"
    with assms(2) sig show ?thesis
      by (simp add: branch_loop_two branch_checks_def check_cmds_def branch_cmd_def
          protection_cmd_def signatures_cmd_def del: branch_loop.simps)
  next
    assume "b = ''master''" "branch_exists sh org repo ''main'' = Inr False"
      "branch_exists sh org repo ''master'' = Inr True"
    with assms(2) sig show ?thesis
      by (simp add: branch_loop_two branch_checks_def check_cmds_def branch_cmd_def
          protection_cmd_def signatures_cmd_def del: branch_loop.simps)
  qed
qed

text \<open>C4 at a repository whose branch \<^verbatim>\<open>main\<close> exists and has no protection, and at one that
  has a branch \<^verbatim>\<open>master\<close> only, without protection.\<close>

theorem unprotected_branch_issue_witness:
  "primary_branch unprotected_shell ''acme'' ''app'' = Inr (Some ''main'')
   \<and> is_protected unprotected_shell ''acme'' ''app'' ''main'' = Inr False
   \<and> fst (branch_loop sample_lib unprotected_shell ''acme'' ''app'' [''main'', ''master''] [] world0)
       = Inr [[CHR 0x27] @ ''main'' @ [CHR 0x27] @ '' branch is not protected'']
   \<and> issued (snd (branch_loop sample_lib unprotected_shell ''acme'' ''app''
                     [''main'', ''master''] [] world0))
       = [''gh api repos/acme/app/branches/main'',
          ''gh api repos/acme/app/branches/main/protection'']
   \<and> primary_branch unprotected_master_shell ''acme'' ''old'' = Inr (Some ''master'')
   \<and> is_protected unprotected_master_shell ''acme'' ''old'' ''master'' = Inr False
   \<and> fst (branch_loop sample_lib unprotected_master_shell ''acme'' ''old''
            [''main'', ''master''] [] world0)
       = Inr [[CHR 0x27] @ ''master'' @ [CHR 0x27] @ '' branch is not protected'']
   \<and> issued (snd (branch_loop sample_lib unprotected_master_shell ''acme'' ''old''
                     [''main'', ''master''] [] world0))
       = [''gh api repos/acme/old/branches/main'',
          ''gh api repos/acme/old/branches/master'',
          ''gh api repos/acme/old/branches/master/protection'']"
proof -
  have p: "primary_branch unprotected_shell ''acme'' ''app'' = Inr (Some ''main'')"
    by code_simp
  have u: "is_protected unprotected_shell ''acme'' ''app'' ''main'' = Inr False"
    by code_simp
  have p': "primary_branch unprotected_master_shell ''acme'' ''old'' = Inr (Some ''master'')"
    by code_simp
  have u': "is_protected unprotected_master_shell ''acme'' ''old'' ''master'' = Inr False"
    by code_simp
  show ?thesis
    using p u p' u' unprotected_branch_issue [OF p u, of sample_lib world0]
      unprotected_branch_issue [OF p' u', of sample_lib world0]
    by (simp add: world0_def del: branch_loop.simps)
qed

subsection \<open>Required signatures\<close>

text \<open>Where the signatures check answers \<^verbatim>\<open>False\<close>: the call exits with a status other than
  zero, or prints nothing but white space, or \<^verbatim>\<open>json.loads\<close> raises JSONDecodeError on what
  it prints, or that loads as a dict without the key \<^verbatim>\<open>enabled\<close>. On the protected primary
  branch of a repository the outcome is then the issue that commit signing is not
  required.\<close>

lemma signatures_value_default:
  assumes "sh (signatures_cmd org repo b) = ExitNonzero
     \<or> (\<exists>out. sh (signatures_cmd org repo b) = Completed out \<and>
          (strip (universal_newlines out) = []
           \<or> json_loads lib (strip (universal_newlines out)) = Inl JSONDecodeError
           \<or> (\<exists>kvs. json_loads lib (strip (universal_newlines out)) = Inr (JObject kvs)
                     \<and> map_of kvs ''enabled'' = None)))"
  shows "signatures_value lib sh org repo b = Inr (JBool False)"
  using assms
  by (auto simp: signatures_value_def check_required_signatures_def run_command_def)

lemma signatures_default_false:
  assumes "sh (signatures_cmd org repo b) = ExitNonzero
     \<or> (\<exists>out. sh (signatures_cmd org repo b) = Completed out \<and>
          (strip (universal_newlines out) = []
           \<or> json_loads lib (strip (universal_newlines out)) = Inl JSONDecodeError
           \<or> (\<exists>kvs. json_loads lib (strip (universal_newlines out)) = Inr (JObject kvs)
                     \<and> map_of kvs ''enabled'' = None)))"
  shows "fst (check_required_signatures lib sh org repo b w) = Inr (JBool False)"
    and "primary_branch sh org repo = Inr (Some b) \<Longrightarrow> is_protected sh org repo b = Inr True
      \<Longrightarrow> fst (branch_loop lib sh org repo [''main'', ''master''] [] w)
          = Inr [''Commit signing not required for '' @ [CHR 0x27] @ b @ [CHR 0x27]
                   @ '' branch'']"
proof -
  have v: "signatures_value lib sh org repo b = Inr (JBool False)"
    using assms by (rule signatures_value_default)
  then show "fst (check_required_signatures lib sh org repo b w) = Inr (JBool False)"
    by (simp add: check_required_signatures_eq)
  show "fst (branch_loop lib sh org repo [''main'', ''master''] [] w)
          = Inr [''Commit signing not required for '' @ [CHR 0x27] @ b @ [CHR 0x27]
                   @ '' branch'']"
    if "primary_branch sh org repo = Inr (Some b)" and "is_protected sh org repo b = Inr True"
    using primary_branch_cases [OF that(1)] that(2) v
    by (auto simp: branch_loop_two branch_checks_def simp del: branch_loop.simps)
qed

text \<open>C5: \<^verbatim>\<open>check_required_signatures\<close> returns false when the signatures call yields no
  response, when the body is not well-formed JSON, or when the field \<^verbatim>\<open>enabled\<close> is absent,
  and such a response becomes a reported issue, never a crash. The script means to (it
  catches the decoding error and gives \<^verbatim>\<open>get\<close> the default \<^verbatim>\<open>False\<close>) but misses a body
  that is JSON and not an object: \<^verbatim>\<open>[]\<close> has no field \<^verbatim>\<open>enabled\<close>, the list it loads as has
  no method \<^verbatim>\<open>get\<close>, and the AttributeError, which nothing catches, ends the run with a
  traceback and status 1.\<close>

theorem signatures_list_body_raises:
  "signatures_shell ''[]'' (''gh api repos/acme/app/branches/main/protection/required_signatures'')
     = Completed ''[]''
   \<and> json_loads sample_lib ''[]'' = Inr (JArray [])
   \<and> fst (check_required_signatures sample_lib (signatures_shell ''[]'') ''acme'' ''app'' ''main''
            world0) = Inl AttributeError
   \<and> fst (branch_loop sample_lib (signatures_shell ''[]'') ''acme'' ''app'' [''main'', ''master'']
            [] world0) = Inl AttributeError
   \<and> status (main sample_lib (signatures_shell ''[]'') [''scan'', ''acme''])
       = Uncaught AttributeError"
  by code_simp

subsection \<open>The loop over the repositories\<close>

text \<open>The state passed to the loop over the branches is only extended.\<close>

lemma branch_loop_world:
  "branch_loop lib sh org repo [''main'', ''master''] [] w =
     (fst (branch_loop lib sh org repo [''main'', ''master''] [] world0),
      w\<lparr>issued := issued w
           @ issued (snd (branch_loop lib sh org repo [''main'', ''master''] [] world0))\<rparr>)"
  by (simp add: branch_loop_two world0_def del: branch_loop.simps split: sum.splits)

lemma print_issues_issued [simp]: "issued (print_issues org repo issues w) = issued w"
proof -
  have "issued (foldl (\<lambda>w' issue. py_print (''  - '' @ issue) w') w0 issues) = issued w0" for w0
    by (induction issues arbitrary: w0) (simp_all add: py_print_def stdout_write_def)
  then show ?thesis
    by (simp add: print_issues_def py_print_def stdout_write_def)
qed

lemma stdout_write_issued [simp]: "issued (stdout_write s w) = issued w"
  by (simp add: stdout_write_def)

lemma py_print_issued [simp]: "issued (py_print s w) = issued w"
  by (simp add: py_print_def)

lemma last_py_print [simp]: "last (stdout (py_print s w)) = s @ [CHR 0x0A]"
  by (simp add: py_print_def stdout_write_def)

text \<open>The issue list of a repository, by the three checks in their order.\<close>

lemma branch_loop_issues_shape:
  assumes "fst (branch_loop lib sh org repo [''main'', ''master''] [] w) = Inr issues"
  shows "(case primary_branch sh org repo of
            Inl e \<Rightarrow> False
          | Inr None \<Rightarrow> issues = [''No main or master branch found'']
          | Inr (Some b) \<Rightarrow>
              issues =
                (if is_protected sh org repo b = Inr False
                 then [[CHR 0x27] @ b @ [CHR 0x27] @ '' branch is not protected'']
                 else if \<not> signatures_required lib sh org repo b
                 then [''Commit signing not required for '' @ [CHR 0x27] @ b @ [CHR 0x27]
                         @ '' branch'']
                 else [])
              \<and> (\<exists>p. is_protected sh org repo b = Inr p))"
  using assms
  by (auto simp: branch_loop_two primary_branch_def branch_checks_def signatures_required_def
      simp del: branch_loop.simps split: if_splits sum.splits)

lemma repo_result_compliant:
  assumes "repo_result lib sh org r = Inr issues"
  shows "issues = [] \<longleftrightarrow> repo_compliant lib sh org r"
proof (cases "subscript_name r")
  case (Inl e)
  with assms show ?thesis by (simp add: repo_result_def)
next
  case (Inr name)
  let ?nm = "py_format lib name"
  from Inr assms have "fst (branch_loop lib sh org ?nm [''main'', ''master''] [] world0)
      = Inr issues"
    by (simp add: repo_result_def)
  note shape = branch_loop_issues_shape [OF this]
  show ?thesis
  proof (cases "primary_branch sh org ?nm")
    case (Inl e)
    with shape show ?thesis by simp
  next
    case pb: (Inr found)
    show ?thesis
    proof (cases found)
      case None
      with shape pb Inr show ?thesis
        by (simp add: repo_compliant_def)
    next
      case (Some b)
      with shape pb obtain p where p: "is_protected sh org ?nm b = Inr p"
        and issues: "issues =
                (if is_protected sh org ?nm b = Inr False
                 then [[CHR 0x27] @ b @ [CHR 0x27] @ '' branch is not protected'']
                 else if \<not> signatures_required lib sh org ?nm b
                 then [''Commit signing not required for '' @ [CHR 0x27] @ b @ [CHR 0x27]
                         @ '' branch'']
                 else [])"
        by auto
      show ?thesis
      proof (cases p)
        case True
        with p issues pb Some Inr show ?thesis
          by (simp add: repo_compliant_def)
      next
        case False
        with p issues pb Some Inr show ?thesis
          by (simp add: repo_compliant_def)
      qed
    qed
  qed
qed

text \<open>A loop that ends without an exception has counted the repositories with issues.\<close>

lemma repo_loop_count:
  assumes "repo_loop lib sh org tot i repos cnt w = (None, n, w')"
  shows "n = cnt + length (filter (non_compliant lib sh org) repos)
       \<and> (\<forall>r\<in>set repos. \<exists>issues. repo_result lib sh org r = Inr issues)"
  using assms
proof (induction repos arbitrary: i cnt w)
  case Nil
  then show ?case by simp
next
  case (Cons r rest)
  from Cons.prems obtain name where name: "subscript_name r = Inr name"
    by (cases "subscript_name r") simp_all
  let ?nm = "py_format lib name"
  let ?w1 = "stdout_write (progress_line i tot ?nm) w"
  obtain res w2 where bl: "branch_loop lib sh org ?nm [''main'', ''master''] [] ?w1 = (res, w2)"
    by (cases "branch_loop lib sh org ?nm [''main'', ''master''] [] ?w1") 
  from Cons.prems name bl obtain issues where res: "res = Inr issues"
    by (cases res) (simp_all del: branch_loop.simps)
  have rr: "repo_result lib sh org r = Inr issues"
    using name bl res branch_loop_world [of lib sh org ?nm ?w1]
    by (simp add: repo_result_def del: branch_loop.simps)
  show ?case
  proof (cases "issues = []")
    case True
    with Cons.prems name bl res
    have "repo_loop lib sh org tot (Suc i) rest cnt w2 = (None, n, w')"
      by (simp del: branch_loop.simps)
    from Cons.IH [OF this] rr True show ?thesis
      by (simp add: non_compliant_def)
  next
    case False
    with Cons.prems name bl res
    have "repo_loop lib sh org tot (Suc i) rest (cnt + 1) (print_issues org ?nm issues w2)
        = (None, n, w')"
      by (simp del: branch_loop.simps)
    from Cons.IH [OF this] rr False show ?thesis
      by (simp add: non_compliant_def)
  qed
qed

text \<open>The loop raises the first exception of a repository.\<close>

lemma repo_loop_fst:
  "fst (repo_loop lib sh org tot i repos cnt w) = first_failure lib sh org repos"
proof (induction repos arbitrary: i cnt w)
  case Nil
  show ?case by simp
next
  case (Cons r rest)
  show ?case
  proof (cases "subscript_name r")
    case (Inl e)
    then show ?thesis by (simp add: repo_result_def)
  next
    case (Inr name)
    let ?nm = "py_format lib name"
    let ?w1 = "stdout_write (progress_line i tot ?nm) w"
    obtain res w2 where bl: "branch_loop lib sh org ?nm [''main'', ''master''] [] ?w1 = (res, w2)"
      by (cases "branch_loop lib sh org ?nm [''main'', ''master''] [] ?w1")
    have rr: "repo_result lib sh org r = res"
      using Inr bl branch_loop_world [of lib sh org ?nm ?w1]
      by (simp add: repo_result_def del: branch_loop.simps)
    show ?thesis
    proof (cases res)
      case (Inl e)
      with Inr bl rr show ?thesis
        by (simp del: branch_loop.simps)
    next
      case inr: (Inr issues)
      with Inr bl rr Cons.IH show ?thesis
        by (simp del: branch_loop.simps)
    qed
  qed
qed

lemma repo_loop_fstD:
  assumes "repo_loop lib sh org tot i repos cnt w = (x, n, w5)"
  shows "first_failure lib sh org repos = x"
  using repo_loop_fst [of lib sh org tot i repos cnt w] assms by simp

text \<open>The decimal text of a number reads back as the number.\<close>

lemma read_nat_snoc: "read_nat (s @ [c]) = 10 * read_nat s + (of_char c - 48)"
  by (simp add: read_nat_def)

lemma read_nat_str_nat: "read_nat (str_nat n) = n"
proof (induction n rule: str_nat.induct)
  case (1 n)
  show ?case
  proof (cases "n < 10")
    case True
    then show ?thesis
      by (subst str_nat.simps) (simp add: read_nat_def)
  next
    case False
    have "(48 + n mod 10) mod 256 = 48 + n mod 10"
      by (rule mod_less) (simp add: less_le_trans [OF add_strict_left_mono [OF pos_mod_bound]])
    with False "1.IH" show ?thesis
      by (subst str_nat.simps) (simp add: read_nat_snoc)
  qed
qed

subsection \<open>The run as a whole\<close>

text \<open>How a run with one argument ends.\<close>

lemma main_status:
  "status (main lib sh [prog, org]) =
     (case fst (run_command sh (list_cmd org) world0) of
        Inl e \<Rightarrow> Uncaught e
      | Inr None \<Rightarrow> Exited 1
      | Inr (Some repos_json) \<Rightarrow>
          if repos_json = [] then Exited 1
          else (case json_loads lib repos_json of
                  Inl e \<Rightarrow> Uncaught e
                | Inr repos \<Rightarrow>
                    (case py_items repos of
                       None \<Rightarrow> Uncaught TypeError
                     | Some items \<Rightarrow>
                         (case first_failure lib sh org items of
                            Some e \<Rightarrow> Uncaught e
                          | None \<Rightarrow> Exited 0))))"
proof (cases "sh (list_cmd org)")
  case ExitNonzero
  then show ?thesis
    by (simp add: main_def run_command_def)
next
  case (Raises e)
  then show ?thesis
    by (simp add: main_def run_command_def)
next
  case (Completed out)
  let ?text = "strip (universal_newlines out)"
  show ?thesis
  proof (cases "?text = []")
    case True
    with Completed show ?thesis
      by (simp add: main_def run_command_def)
  next
    case False
    note nonempty = this
    show ?thesis
    proof (cases "json_loads lib ?text")
      case (Inl e)
      with Completed nonempty show ?thesis
        by (simp add: main_def run_command_def)
    next
      case (Inr repos)
      show ?thesis
      proof (cases "py_items repos")
        case None
        with Completed nonempty Inr show ?thesis
          by (simp add: main_def run_command_def)
      next
        case (Some items)
        have "status (main lib sh [prog, org]) =
            (case first_failure lib sh org items of Some e \<Rightarrow> Uncaught e | None \<Rightarrow> Exited 0)"
          using Completed nonempty Inr Some
          by (auto simp add: main_def run_command_def Let_def simp del: repo_loop.simps
              split: prod.splits option.splits dest!: repo_loop_fstD)
        with Completed nonempty Inr Some show ?thesis
          by (simp add: run_command_def)
      qed
    qed
  qed
qed

text \<open>\<^verbatim>\<open>main\<close> with one argument, by the states named above.\<close>

lemma main_unfold:
  "main lib sh [prog, org] =
     (case fst (run_command sh (list_cmd org) world0) of
        Inl e \<Rightarrow> \<lparr>final = listing_done org, count = Some 0, status = Uncaught e\<rparr>
      | Inr None \<Rightarrow>
          \<lparr>final = py_print ''No repositories found or error accessing the organization.''
                     (listing_done org),
           count = Some 0, status = Exited 1\<rparr>
      | Inr (Some repos_json) \<Rightarrow>
          if repos_json = [] then
            \<lparr>final = py_print ''No repositories found or error accessing the organization.''
                       (listing_done org),
             count = Some 0, status = Exited 1\<rparr>
          else
            (case json_loads lib repos_json of
               Inl e \<Rightarrow> \<lparr>final = listing_done org, count = Some 0, status = Uncaught e\<rparr>
             | Inr repos \<Rightarrow>
                 (case py_items repos of
                    None \<Rightarrow> \<lparr>final = listing_done org, count = Some 0, status = Uncaught TypeError\<rparr>
                  | Some items \<Rightarrow>
                      (case repo_loop lib sh org (length items) 1 items 0
                              (loop_start org (length items)) of
                         (Some e, n, w5) \<Rightarrow> \<lparr>final = w5, count = Some n, status = Uncaught e\<rparr>
                       | (None, n, w5) \<Rightarrow>
                           \<lparr>final = py_print (summary_line n (length items))
                                      (stdout_write clear_line w5),
                            count = Some n, status = Exited 0\<rparr>))))"
proof (cases "sh (list_cmd org)")
  case ExitNonzero
  then show ?thesis
    by (simp add: main_def run_command_def listing_done_def py_print_def stdout_write_def
        world0_def)
next
  case (Raises e)
  then show ?thesis
    by (simp add: main_def run_command_def listing_done_def py_print_def stdout_write_def
        world0_def)
next
  case (Completed out)
  let ?text = "strip (universal_newlines out)"
  show ?thesis
  proof (cases "?text = []")
    case True
    with Completed show ?thesis
      by (simp add: main_def run_command_def listing_done_def py_print_def stdout_write_def
          world0_def)
  next
    case False
    note nonempty = this
    show ?thesis
    proof (cases "json_loads lib ?text")
      case (Inl e)
      with Completed nonempty show ?thesis
        by (simp add: main_def run_command_def listing_done_def py_print_def stdout_write_def
            world0_def)
    next
      case (Inr repos)
      show ?thesis
      proof (cases "py_items repos")
        case None
        with Completed nonempty Inr show ?thesis
          by (simp add: main_def run_command_def listing_done_def py_print_def stdout_write_def
              world0_def)
      next
        case (Some items)
        with Completed nonempty Inr show ?thesis
          by (simp add: main_def run_command_def listing_done_def loop_start_def py_print_def
              stdout_write_def world0_def Let_def del: repo_loop.simps)
      qed
    qed
  qed
qed

text \<open>A run that ends with status 0 has gone through the whole loop and printed the
  summary.\<close>

lemma main_reaches_summary:
  assumes "status (main lib sh [prog, org]) = Exited 0"
  obtains n w5 where
    "repo_loop lib sh org (length (listed_repos lib sh org)) 1 (listed_repos lib sh org) 0
       (loop_start org (length (listed_repos lib sh org))) = (None, n, w5)"
    "main lib sh [prog, org] =
        \<lparr>final = py_print (summary_line n (length (listed_repos lib sh org)))
                   (stdout_write clear_line w5),
         count = Some n, status = Exited 0\<rparr>"
proof (cases "sh (list_cmd org)")
  case ExitNonzero
  with assms show ?thesis
    by (simp add: main_status run_command_def)
next
  case (Raises e)
  with assms show ?thesis
    by (simp add: main_status run_command_def)
next
  case (Completed out)
  let ?text = "strip (universal_newlines out)"
  from assms Completed have nonempty: "?text \<noteq> []"
    by (auto simp: main_status run_command_def split: if_splits)
  with assms Completed obtain repos where repos: "json_loads lib ?text = Inr repos"
    by (cases "json_loads lib ?text") (simp_all add: main_status run_command_def)
  with assms Completed nonempty obtain items where items: "py_items repos = Some items"
    by (cases "py_items repos") (simp_all add: main_status run_command_def)
  have l: "listed_repos lib sh org = items"
    using Completed repos items by (simp add: listed_repos_def run_command_def)
  obtain r n w5 where rl: "repo_loop lib sh org (length items) 1 items 0
      (loop_start org (length items)) = (r, n, w5)"
    using prod_cases3 by blast
  from assms Completed nonempty repos items repo_loop_fstD [OF rl] have r: "r = None"
    by (cases r) (simp_all add: main_status run_command_def)
  from Completed nonempty repos items rl r
  have "main lib sh [prog, org] =
        \<lparr>final = py_print (summary_line n (length items)) (stdout_write clear_line w5),
         count = Some n, status = Exited 0\<rparr>"
    by (simp add: main_unfold run_command_def del: repo_loop.simps)
  with rl r l that show ?thesis
    by simp
qed

text \<open>The run on the organization of the scenario reaches the summary.\<close>

lemma acme_completes: "status (main sample_lib acme_shell [''scan'', ''acme'']) = Exited 0"
proof -
  have "(case fst (run_command acme_shell (list_cmd ''acme'') world0) of
        Inl e \<Rightarrow> Uncaught e
      | Inr None \<Rightarrow> Exited 1
      | Inr (Some repos_json) \<Rightarrow>
          if repos_json = [] then Exited 1
          else (case json_loads sample_lib repos_json of
                  Inl e \<Rightarrow> Uncaught e
                | Inr repos \<Rightarrow>
                    (case py_items repos of
                       None \<Rightarrow> Uncaught TypeError
                     | Some items \<Rightarrow>
                         (case first_failure sample_lib acme_shell ''acme'' items of
                            Some e \<Rightarrow> Uncaught e
                          | None \<Rightarrow> Exited 0)))) = Exited 0"
    by code_simp
  then show ?thesis
    by (simp only: main_status)
qed

text \<open>C6: for every run that reaches the summary, the non-compliant count equals the number
  of scanned repositories whose issue list is non-empty, and that number is what the summary
  prints, in decimal digits (when it is zero the summary says that all repositories meet
  the requirements); the repositories counted are exactly those that do not have a
  protected primary branch with signatures required, so a repository with protection and
  signatures enabled contributes nothing.\<close>

theorem summary_count:
  assumes "status (main lib sh [prog, org]) = Exited 0"
  shows "count (main lib sh [prog, org])
           = Some (length (filter (non_compliant lib sh org) (listed_repos lib sh org)))
       \<and> last (stdout (final (main lib sh [prog, org]))) =
           (if length (filter (non_compliant lib sh org) (listed_repos lib sh org)) = 0
            then [CHR 0x0A] @ ''All repositories meet the requirements.'' @ [CHR 0x0A]
            else [CHR 0x0A] @ ''Total: ''
                   @ str_nat (length (filter (non_compliant lib sh org) (listed_repos lib sh org)))
                   @ '' non-compliant repositories out of ''
                   @ str_nat (length (listed_repos lib sh org)) @ [CHR 0x0A])
       \<and> read_nat (str_nat (length (filter (non_compliant lib sh org) (listed_repos lib sh org))))
           = length (filter (non_compliant lib sh org) (listed_repos lib sh org))
       \<and> read_nat (str_nat (length (listed_repos lib sh org))) = length (listed_repos lib sh org)
       \<and> (\<forall>r\<in>set (listed_repos lib sh org).
             non_compliant lib sh org r = (\<not> repo_compliant lib sh org r))"
proof -
  from assms obtain n w5 where
    rl: "repo_loop lib sh org (length (listed_repos lib sh org)) 1 (listed_repos lib sh org) 0
       (loop_start org (length (listed_repos lib sh org))) = (None, n, w5)"
    and m: "main lib sh [prog, org] =
        \<lparr>final = py_print (summary_line n (length (listed_repos lib sh org)))
                   (stdout_write clear_line w5),
         count = Some n, status = Exited 0\<rparr>"
    by (rule main_reaches_summary)
  from repo_loop_count [OF rl]
  have n: "n = length (filter (non_compliant lib sh org) (listed_repos lib sh org))"
    and all: "\<forall>r\<in>set (listed_repos lib sh org). \<exists>issues. repo_result lib sh org r = Inr issues"
    by simp_all
  have "non_compliant lib sh org r = (\<not> repo_compliant lib sh org r)"
    if "r \<in> set (listed_repos lib sh org)" for r
  proof -
    from all that obtain issues where "repo_result lib sh org r = Inr issues" by blast
    with repo_result_compliant [OF this] show ?thesis
      by (simp add: non_compliant_def)
  qed
  with m n show ?thesis
    by (simp add: summary_line_def read_nat_str_nat)
qed

text \<open>C6 on the scenario of the specification: \<^verbatim>\<open>B\<close> and \<^verbatim>\<open>C\<close> are counted, \<^verbatim>\<open>A\<close> is not.\<close>

theorem summary_count_witness:
  "status (main sample_lib acme_shell [''scan'', ''acme'']) = Exited 0
   \<and> count (main sample_lib acme_shell [''scan'', ''acme'']) = Some 2
   \<and> last (stdout (final (main sample_lib acme_shell [''scan'', ''acme''])))
       = [CHR 0x0A] @ ''Total: 2 non-compliant repositories out of 3'' @ [CHR 0x0A]
   \<and> read_nat ''2'' = 2 \<and> read_nat ''3'' = 3
   \<and> map (non_compliant sample_lib acme_shell ''acme'') (listed_repos sample_lib acme_shell ''acme'')
       = [False, True, True]
   \<and> map (repo_compliant sample_lib acme_shell ''acme'') (listed_repos sample_lib acme_shell ''acme'')
       = [True, False, False]"
proof -
  have l: "length (listed_repos sample_lib acme_shell ''acme'') = 3"
    by code_simp
  have n: "map (non_compliant sample_lib acme_shell ''acme'')
      (listed_repos sample_lib acme_shell ''acme'') = [False, True, True]"
    by code_simp
  have c: "map (repo_compliant sample_lib acme_shell ''acme'')
      (listed_repos sample_lib acme_shell ''acme'') = [True, False, False]"
    by code_simp
  have f: "length (filter (non_compliant sample_lib acme_shell ''acme'')
      (listed_repos sample_lib acme_shell ''acme'')) = 2"
    by code_simp
  have t: "str_nat 2 = ''2''" "str_nat 3 = ''3''"
    by code_simp+
  from summary_count [OF acme_completes] acme_completes l f t n c show ?thesis
    by simp
qed

text \<open>C7: for every repository in every run, the issue list built for it has at most one
  issue, the first failing condition in the order no branch, branch not protected,
  signatures not required; it is empty when none fails.\<close>

theorem at_most_one_issue:
  assumes "fst (branch_loop lib sh org repo [''main'', ''master''] [] w) = Inr issues"
  shows "length issues \<le> 1
       \<and> (case primary_branch sh org repo of
            Inl e \<Rightarrow> False
          | Inr None \<Rightarrow> issues = [''No main or master branch found'']
          | Inr (Some b) \<Rightarrow>
              issues =
                (if is_protected sh org repo b = Inr False
                 then [[CHR 0x27] @ b @ [CHR 0x27] @ '' branch is not protected'']
                 else if \<not> signatures_required lib sh org repo b
                 then [''Commit signing not required for '' @ [CHR 0x27] @ b @ [CHR 0x27]
                         @ '' branch'']
                 else [])
              \<and> (\<exists>p. is_protected sh org repo b = Inr p))"
proof -
  note shape = branch_loop_issues_shape [OF assms]
  then have "length issues \<le> 1"
    by (cases "primary_branch sh org repo") (auto split: option.splits if_splits)
  with shape show ?thesis by simp
qed

text \<open>C7 at a repository whose protected branch \<^verbatim>\<open>main\<close> answers the signatures call with
  \<^verbatim>\<open><html>\<close>.\<close>

theorem at_most_one_issue_witness:
  "fst (branch_loop sample_lib (signatures_shell ''<html>'') ''acme'' ''app''
          [''main'', ''master''] [] world0)
     = Inr [''Commit signing not required for '' @ [CHR 0x27] @ ''main'' @ [CHR 0x27]
              @ '' branch'']
   \<and> primary_branch (signatures_shell ''<html>'') ''acme'' ''app'' = Inr (Some ''main'')
   \<and> is_protected (signatures_shell ''<html>'') ''acme'' ''app'' ''main'' = Inr True
   \<and> \<not> signatures_required sample_lib (signatures_shell ''<html>'') ''acme'' ''app'' ''main''"
proof -
  have a: "fst (branch_loop sample_lib (signatures_shell ''<html>'') ''acme'' ''app''
          [''main'', ''master''] [] world0)
     = Inr [''Commit signing not required for '' @ [CHR 0x27] @ ''main'' @ [CHR 0x27]
              @ '' branch'']"
    by code_simp
  have p: "primary_branch (signatures_shell ''<html>'') ''acme'' ''app'' = Inr (Some ''main'')"
    by code_simp
  have q: "is_protected (signatures_shell ''<html>'') ''acme'' ''app'' ''main'' = Inr True"
    by code_simp
  have r: "\<not> signatures_required sample_lib (signatures_shell ''<html>'') ''acme'' ''app'' ''main''"
    by code_simp
  from at_most_one_issue [OF a] p q r a show ?thesis
    by simp
qed

text \<open>A run whose listing call succeeds with an output that is not empty, and out of which
  no exception gets, ends with status 0 after the summary.\<close>

lemma summary_and_exit_status:
  assumes "sh (list_cmd org) = Completed out" and "strip (universal_newlines out) \<noteq> []"
    and "\<forall>e. status (main lib sh [prog, org]) \<noteq> Uncaught e"
  shows "status (main lib sh [prog, org]) = Exited 0"
  using assms
  by (auto simp: main_status run_command_def split: sum.splits option.splits)

text \<open>C8: every run with a successful, non-empty listing ends by printing the summary and
  exits with status 0. The script means to (nothing after the listing calls \<^verbatim>\<open>sys.exit\<close>,
  and the signatures check catches the decoding error of its response) but misses the
  exceptions that it does not guard. In a run whose one repository has a protected \<^verbatim>\<open>main\<close>
  and whose signatures call prints \<^verbatim>\<open>[]\<close>, the AttributeError of \<^verbatim>\<open>get\<close> ends the run: the
  last text written is the progress line, no summary is printed, and the exit status is 1.
  A listing that is not JSON does the same at line 48, where \<^verbatim>\<open>json.loads\<close> is called
  without the guard that line 27 has.\<close>

theorem unguarded_exception_exit_status:
  \<open>signatures_shell ''[]'' (''gh repo list acme --limit 1000 --json name'')
     = Completed ''[{"name":"app"}]''
   \<and> listed_repos sample_lib (signatures_shell ''[]'') ''acme''
       = [JObject [(''name'', JString ''app'')]]
   \<and> status (main sample_lib (signatures_shell ''[]'') [''scan'', ''acme''])
       = Uncaught AttributeError
   \<and> exit_code (status (main sample_lib (signatures_shell ''[]'') [''scan'', ''acme''])) = 1
   \<and> last (stdout (final (main sample_lib (signatures_shell ''[]'') [''scan'', ''acme''])))
       = [CHR 0x0D] @ ''Processing: 1/1 (app)'' @ replicate 20 CHR '' ''
   \<and> bad_listing_shell (''gh repo list acme --limit 1000 --json name'') = Completed ''<html>''
   \<and> status (main sample_lib bad_listing_shell [''scan'', ''acme'']) = Uncaught JSONDecodeError
   \<and> exit_code (status (main sample_lib bad_listing_shell [''scan'', ''acme''])) = 1
   \<and> stdout (final (main sample_lib bad_listing_shell [''scan'', ''acme'']))
       = [''Fetching repositories for organization: acme...'' @ [CHR 0x0A]]\<close>
  by code_simp

text \<open>C10: when the signatures call prints well-formed JSON, an object with the field
  \<^verbatim>\<open>enabled\<close>, \<^verbatim>\<open>check_required_signatures\<close> returns the value of the field as it is, and
  the caller takes the signatures as required exactly when that value is true as a Python
  object: with a true value on the protected primary branch, no issue is recorded.\<close>

theorem enabled_value_unchanged:
  assumes "sh (signatures_cmd org repo b) = Completed out"
    and "strip (universal_newlines out) \<noteq> []"
    and "json_loads lib (strip (universal_newlines out)) = Inr (JObject kvs)"
    and "map_of kvs ''enabled'' = Some v"
  shows "fst (check_required_signatures lib sh org repo b w) = Inr v
       \<and> signatures_required lib sh org repo b = truthy v
       \<and> (truthy v \<and> primary_branch sh org repo = Inr (Some b)
            \<and> is_protected sh org repo b = Inr True \<longrightarrow>
            fst (branch_loop lib sh org repo [''main'', ''master''] [] w) = Inr [])"
proof -
  have v: "signatures_value lib sh org repo b = Inr v"
    using assms
    by (simp add: signatures_value_def check_required_signatures_def run_command_def)
  have "fst (branch_loop lib sh org repo [''main'', ''master''] [] w) = Inr []"
    if "truthy v" and "primary_branch sh org repo = Inr (Some b)"
      and "is_protected sh org repo b = Inr True"
    using primary_branch_cases [OF that(2)] that(1,3) v
    by (auto simp: branch_loop_two branch_checks_def simp del: branch_loop.simps)
  with v show ?thesis
    by (simp add: check_required_signatures_eq signatures_required_def)
qed

text \<open>C10 at a signatures call that prints an object whose field \<^verbatim>\<open>enabled\<close> is the str
  \<^verbatim>\<open>false\<close>.\<close>

theorem enabled_value_unchanged_witness:
  \<open>signatures_shell ''{"enabled":"false"}'' (signatures_cmd ''acme'' ''app'' ''main'')
       = Completed ''{"enabled":"false"}''
   \<and> json_loads sample_lib (strip (universal_newlines ''{"enabled":"false"}''))
       = Inr (JObject [(''enabled'', JString ''false'')])
   \<and> truthy (JString ''false'')
   \<and> primary_branch (signatures_shell ''{"enabled":"false"}'') ''acme'' ''app''
       = Inr (Some ''main'')
   \<and> is_protected (signatures_shell ''{"enabled":"false"}'') ''acme'' ''app'' ''main'' = Inr True
   \<and> fst (check_required_signatures sample_lib (signatures_shell ''{"enabled":"false"}'')
            ''acme'' ''app'' ''main'' world0) = Inr (JString ''false'')
   \<and> signatures_required sample_lib (signatures_shell ''{"enabled":"false"}'')
            ''acme'' ''app'' ''main''
   \<and> fst (branch_loop sample_lib (signatures_shell ''{"enabled":"false"}'') ''acme'' ''app''
            [''main'', ''master''] [] world0) = Inr []\<close>
proof -
  have a: \<open>signatures_shell ''{"enabled":"false"}'' (signatures_cmd ''acme'' ''app'' ''main'')
       = Completed ''{"enabled":"false"}''\<close>
    by code_simp
  have n: \<open>strip (universal_newlines ''{"enabled":"false"}'') \<noteq> []\<close>
    by code_simp
  have l: \<open>json_loads sample_lib (strip (universal_newlines ''{"enabled":"false"}''))
       = Inr (JObject [(''enabled'', JString ''false'')])\<close>
    by code_simp
  have m: "map_of [(''enabled'', JString ''false'')] ''enabled'' = Some (JString ''false'')"
    by simp
  have p: \<open>primary_branch (signatures_shell ''{"enabled":"false"}'') ''acme'' ''app''
      = Inr (Some ''main'')\<close>
    by code_simp
  have q: \<open>is_protected (signatures_shell ''{"enabled":"false"}'') ''acme'' ''app'' ''main''
      = Inr True\<close>
    by code_simp
  from enabled_value_unchanged [where sh = \<open>signatures_shell ''{"enabled":"false"}''\<close>
      and lib = sample_lib and w = world0, OF a n l m] a l p q
  show ?thesis
    by simp
qed

subsection \<open>Two runs\<close>

text \<open>Each check reads the answer to its own command and nothing else.\<close>

lemma branch_exists_cong:
  assumes "sh' (branch_cmd org repo b) = sh (branch_cmd org repo b)"
  shows "branch_exists sh' org repo b = branch_exists sh org repo b"
  using assms by (simp add: branch_exists_iff)

lemma branch_checks_cong:
  assumes "\<forall>c\<in>set (check_cmds sh org repo b). sh' c = sh c"
  shows "branch_checks lib sh' org repo b = branch_checks lib sh org repo b"
    and "check_cmds sh' org repo b = check_cmds sh org repo b"
proof -
  from assms have "sh' (protection_cmd org repo b) = sh (protection_cmd org repo b)"
    by (simp add: check_cmds_def split: if_splits)
  then have p: "is_protected sh' org repo b = is_protected sh org repo b"
    by (simp add: is_protected_iff)
  have v: "signatures_value lib sh' org repo b = signatures_value lib sh org repo b"
    if "is_protected sh org repo b = Inr True"
  proof -
    from assms that have "sh' (signatures_cmd org repo b) = sh (signatures_cmd org repo b)"
      by (simp add: check_cmds_def)
    then show ?thesis
      by (simp add: signatures_value_def check_required_signatures_def run_command_def)
  qed
  show "branch_checks lib sh' org repo b = branch_checks lib sh org repo b"
  proof (cases "is_protected sh org repo b")
    case (Inl e)
    with p show ?thesis by (simp add: branch_checks_def)
  next
    case (Inr protected)
    with p v show ?thesis by (cases protected) (simp_all add: branch_checks_def)
  qed
  from p show "check_cmds sh' org repo b = check_cmds sh org repo b"
    by (simp add: check_cmds_def)
qed

text \<open>A loop run against another shell that answers the commands of this run as this shell
  does is the same loop.\<close>

lemma branch_loop_agree:
  assumes "\<forall>c\<in>set (issued (snd (branch_loop lib sh org repo [''main'', ''master''] [] w))).
             sh' c = sh c"
  shows "branch_loop lib sh' org repo [''main'', ''master''] [] w
       = branch_loop lib sh org repo [''main'', ''master''] [] w"
proof -
  have a: "sh' (branch_cmd org repo ''main'') = sh (branch_cmd org repo ''main'')"
    using assms
    by (simp add: branch_loop_two del: branch_loop.simps split: sum.splits if_splits)
  note ea = branch_exists_cong [where sh' = sh' and sh = sh, OF a]
  show ?thesis
  proof (cases "branch_exists sh org repo ''main''")
    case (Inl e)
    with ea show ?thesis
      by (simp add: branch_loop_two del: branch_loop.simps)
  next
    case (Inr main_exists)
    show ?thesis
    proof (cases main_exists)
      case True
      with Inr assms have c: "\<forall>c\<in>set (check_cmds sh org repo ''main''). sh' c = sh c"
        by (simp add: branch_loop_two del: branch_loop.simps)
      from True Inr ea branch_checks_cong [where sh' = sh' and sh = sh, OF c] show ?thesis
        by (simp add: branch_loop_two del: branch_loop.simps)
    next
      case False
      with Inr assms
      have b: "sh' (branch_cmd org repo ''master'') = sh (branch_cmd org repo ''master'')"
        by (simp add: branch_loop_two del: branch_loop.simps split: sum.splits if_splits)
      note eb = branch_exists_cong [where sh' = sh' and sh = sh, OF b]
      show ?thesis
      proof (cases "branch_exists sh org repo ''master''")
        case (Inl e)
        with False Inr ea eb show ?thesis
          by (simp add: branch_loop_two del: branch_loop.simps)
      next
        case master: (Inr master_exists)
        show ?thesis
        proof (cases master_exists)
          case True
          with False Inr master assms
          have c: "\<forall>c\<in>set (check_cmds sh org repo ''master''). sh' c = sh c"
            by (simp add: branch_loop_two del: branch_loop.simps)
          from True False Inr master ea eb
            branch_checks_cong [where sh' = sh' and sh = sh, OF c]
          show ?thesis
            by (simp add: branch_loop_two del: branch_loop.simps)
        next
          case no_master: False
          with False Inr master ea eb show ?thesis
            by (simp add: branch_loop_two del: branch_loop.simps)
        qed
      qed
    qed
  qed
qed

lemma branch_loop_issued_mono:
  "set (issued w) \<subseteq> set (issued (snd (branch_loop lib sh org repo [''main'', ''master''] [] w)))"
  by (subst branch_loop_world) simp

lemma repo_loop_issued_mono:
  "set (issued w) \<subseteq> set (issued (snd (snd (repo_loop lib sh org tot i repos cnt w))))"
proof (induction repos arbitrary: i cnt w)
  case Nil
  show ?case by simp
next
  case (Cons r rest)
  show ?case
  proof (cases "subscript_name r")
    case (Inl e)
    then show ?thesis by simp
  next
    case (Inr name)
    let ?nm = "py_format lib name"
    let ?w1 = "stdout_write (progress_line i tot ?nm) w"
    obtain res w2 where bl: "branch_loop lib sh org ?nm [''main'', ''master''] [] ?w1 = (res, w2)"
      by (cases "branch_loop lib sh org ?nm [''main'', ''master''] [] ?w1")
    from branch_loop_issued_mono [of ?w1 lib sh org ?nm] bl
    have w2: "set (issued w) \<subseteq> set (issued w2)"
      by (simp del: branch_loop.simps)
    show ?thesis
    proof (cases res)
      case (Inl e)
      with Inr bl w2 show ?thesis
        by (simp del: branch_loop.simps)
    next
      case inr: (Inr issues)
      show ?thesis
      proof (cases "issues = []")
        case True
        with Inr bl inr w2 Cons.IH [where i = "Suc i" and cnt = cnt and w = w2] show ?thesis
          by (auto simp del: branch_loop.simps)
      next
        case False
        with Inr bl inr w2
          Cons.IH [where i = "Suc i" and cnt = "cnt + 1"
            and w = "print_issues org ?nm issues w2"]
        show ?thesis
          by (auto simp del: branch_loop.simps)
      qed
    qed
  qed
qed

lemma repo_loop_agree:
  assumes "\<forall>c\<in>set (issued (snd (snd (repo_loop lib sh org tot i repos cnt w)))). sh' c = sh c"
  shows "repo_loop lib sh' org tot i repos cnt w = repo_loop lib sh org tot i repos cnt w"
  using assms
proof (induction repos arbitrary: i cnt w)
  case Nil
  show ?case by simp
next
  case (Cons r rest)
  show ?case
  proof (cases "subscript_name r")
    case (Inl e)
    then show ?thesis by simp
  next
    case (Inr name)
    let ?nm = "py_format lib name"
    let ?w1 = "stdout_write (progress_line i tot ?nm) w"
    obtain res w2 where bl: "branch_loop lib sh org ?nm [''main'', ''master''] [] ?w1 = (res, w2)"
      by (cases "branch_loop lib sh org ?nm [''main'', ''master''] [] ?w1")
    have sub: "set (issued w2)
        \<subseteq> set (issued (snd (snd (repo_loop lib sh org tot i (r # rest) cnt w))))"
    proof (cases res)
      case (Inl e)
      with Inr bl show ?thesis by (simp del: branch_loop.simps)
    next
      case inr: (Inr issues)
      show ?thesis
      proof (cases "issues = []")
        case True
        with Inr bl inr repo_loop_issued_mono [of w2 lib sh org tot "Suc i" rest cnt]
        show ?thesis by (simp del: branch_loop.simps)
      next
        case False
        with Inr bl inr
          repo_loop_issued_mono [of "print_issues org ?nm issues w2" lib sh org tot "Suc i" rest
            "cnt + 1"]
        show ?thesis by (simp del: branch_loop.simps)
      qed
    qed
    with Cons.prems bl
    have "\<forall>c\<in>set (issued (snd (branch_loop lib sh org ?nm [''main'', ''master''] [] ?w1))).
        sh' c = sh c"
      by (auto simp del: branch_loop.simps repo_loop.simps)
    from branch_loop_agree [OF this] bl
    have bl': "branch_loop lib sh' org ?nm [''main'', ''master''] [] ?w1 = (res, w2)"
      by simp
    show ?thesis
    proof (cases res)
      case (Inl e)
      with Inr bl bl' show ?thesis by (simp del: branch_loop.simps)
    next
      case inr: (Inr issues)
      show ?thesis
      proof (cases "issues = []")
        case True
        with Inr bl inr Cons.prems
        have "\<forall>c\<in>set (issued (snd (snd (repo_loop lib sh org tot (Suc i) rest cnt w2)))).
            sh' c = sh c"
          by (simp del: branch_loop.simps)
        from Cons.IH [OF this] True Inr bl bl' inr show ?thesis
          by (simp del: branch_loop.simps)
      next
        case False
        with Inr bl inr Cons.prems
        have "\<forall>c\<in>set (issued (snd (snd (repo_loop lib sh org tot (Suc i) rest (cnt + 1)
            (print_issues org ?nm issues w2))))). sh' c = sh c"
          by (simp del: branch_loop.simps)
        from Cons.IH [OF this] False Inr bl bl' inr show ?thesis
          by (simp del: branch_loop.simps)
      qed
    qed
  qed
qed

lemma listing_issued:
  "list_cmd org \<in> set (issued (final (main lib sh [prog, org])))"
proof -
  have "list_cmd org \<in> set (issued w5)"
    if "repo_loop lib sh org tot 1 items 0 (loop_start org tot) = (r, n, w5)" for tot items r n w5
    using repo_loop_issued_mono [of "loop_start org tot" lib sh org tot 1 items 0] that
    by (auto simp: loop_start_def listing_done_def simp del: repo_loop.simps)
  then show ?thesis
    by (auto simp: main_unfold listing_done_def simp del: repo_loop.simps
        split: option.splits sum.splits prod.splits)
qed

lemma run_agree:
  assumes "\<forall>c\<in>set (issued (final (main lib sh [prog, org]))). sh' c = sh c"
  shows "main lib sh' [prog, org] = main lib sh [prog, org]"
proof -
  from assms listing_issued have l: "sh' (list_cmd org) = sh (list_cmd org)"
    by blast
  have "repo_loop lib sh' org (length items) 1 items 0 (loop_start org (length items))
      = repo_loop lib sh org (length items) 1 items 0 (loop_start org (length items))"
    if "sh (list_cmd org) = Completed out" "strip (universal_newlines out) \<noteq> []"
      "json_loads lib (strip (universal_newlines out)) = Inr repos"
      "py_items repos = Some items" for out repos items
  proof (rule repo_loop_agree)
    obtain r n w5 where rl: "repo_loop lib sh org (length items) 1 items 0
        (loop_start org (length items)) = (r, n, w5)"
      using prod_cases3 by blast
    with that have "issued (final (main lib sh [prog, org])) = issued w5"
      by (cases r) (simp_all add: main_unfold run_command_def del: repo_loop.simps)
    with assms rl
    show "\<forall>c\<in>set (issued (snd (snd (repo_loop lib sh org (length items) 1 items 0
        (loop_start org (length items)))))). sh' c = sh c"
      by (simp del: repo_loop.simps)
  qed
  with l show ?thesis
    by (simp add: main_unfold run_command_def del: repo_loop.simps
        split: option.splits sum.splits answer.splits)
qed

text \<open>C9: the program is deterministic. A run is a function of the command line and of the
  answers to the commands it issues: a second run with the same arguments, in a world that
  answers every command issued in the first run as the first world did, ends with the same
  outcome, that is the same sequence of texts printed, the same commands, the same final
  non-compliant count and the same exit status.\<close>

theorem deterministic_run:
  assumes "\<forall>c\<in>set (issued (final (main lib sh argv))). sh' c = sh c"
  shows "main lib sh' argv = main lib sh argv"
proof (cases "length argv = 2")
  case True
  then obtain prog org where argv: "argv = [prog, org]"
    by (cases argv; cases "tl argv") auto
  from assms show ?thesis
    unfolding argv by (rule run_agree)
next
  case False
  then show ?thesis
    by (simp add: main_def)
qed

text \<open>C9 at two worlds that differ on the probe of \<^verbatim>\<open>master\<close>, a command that the run does
  not issue because \<^verbatim>\<open>main\<close> exists.\<close>

theorem deterministic_run_witness:
  \<open>issued (final (main sample_lib (signatures_shell ''<html>'') [''scan'', ''acme'']))
     = [list_cmd ''acme'', branch_cmd ''acme'' ''app'' ''main'',
        protection_cmd ''acme'' ''app'' ''main'', signatures_cmd ''acme'' ''app'' ''main'']
   \<and> other_master_shell (list_cmd ''acme'') = signatures_shell ''<html>'' (list_cmd ''acme'')
   \<and> other_master_shell (branch_cmd ''acme'' ''app'' ''main'')
       = signatures_shell ''<html>'' (branch_cmd ''acme'' ''app'' ''main'')
   \<and> other_master_shell (protection_cmd ''acme'' ''app'' ''main'')
       = signatures_shell ''<html>'' (protection_cmd ''acme'' ''app'' ''main'')
   \<and> other_master_shell (signatures_cmd ''acme'' ''app'' ''main'')
       = signatures_shell ''<html>'' (signatures_cmd ''acme'' ''app'' ''main'')
   \<and> other_master_shell (branch_cmd ''acme'' ''app'' ''master'')
       = Completed ''{"name":"master"}''
   \<and> signatures_shell ''<html>'' (branch_cmd ''acme'' ''app'' ''master'') = ExitNonzero
   \<and> main sample_lib other_master_shell [''scan'', ''acme'']
       = main sample_lib (signatures_shell ''<html>'') [''scan'', ''acme'']\<close>
proof -
  have i: "issued (final (main sample_lib (signatures_shell ''<html>'') [''scan'', ''acme'']))
     = [list_cmd ''acme'', branch_cmd ''acme'' ''app'' ''main'',
        protection_cmd ''acme'' ''app'' ''main'', signatures_cmd ''acme'' ''app'' ''main'']"
    by code_simp
  have a: "other_master_shell (list_cmd ''acme'') = signatures_shell ''<html>'' (list_cmd ''acme'')"
    by code_simp
  have b: "other_master_shell (branch_cmd ''acme'' ''app'' ''main'')
       = signatures_shell ''<html>'' (branch_cmd ''acme'' ''app'' ''main'')"
    by code_simp
  have c: "other_master_shell (protection_cmd ''acme'' ''app'' ''main'')
       = signatures_shell ''<html>'' (protection_cmd ''acme'' ''app'' ''main'')"
    by code_simp
  have d: "other_master_shell (signatures_cmd ''acme'' ''app'' ''main'')
       = signatures_shell ''<html>'' (signatures_cmd ''acme'' ''app'' ''main'')"
    by code_simp
  have e: \<open>other_master_shell (branch_cmd ''acme'' ''app'' ''master'')
      = Completed ''{"name":"master"}''\<close>
    by code_simp
  have f: "signatures_shell ''<html>'' (branch_cmd ''acme'' ''app'' ''master'') = ExitNonzero"
    by code_simp
  have "\<forall>c\<in>set [list_cmd ''acme'', branch_cmd ''acme'' ''app'' ''main'',
        protection_cmd ''acme'' ''app'' ''main'', signatures_cmd ''acme'' ''app'' ''main''].
      other_master_shell c = signatures_shell ''<html>'' c"
    by (simp only: list.set ball_simps a b c d)
  then have "\<forall>c\<in>set (issued (final (main sample_lib (signatures_shell ''<html>'')
      [''scan'', ''acme'']))). other_master_shell c = signatures_shell ''<html>'' c"
    by (simp only: i)
  from deterministic_run [OF this]
  have m: "main sample_lib other_master_shell [''scan'', ''acme'']
       = main sample_lib (signatures_shell ''<html>'') [''scan'', ''acme'']" .
  show ?thesis
    by (rule conjI i a b c d e f m)+
qed

end
